theory Spec2Isabelle
  imports Complex_Main
begin

section \<open>Course grade factory: data\<close>

text \<open>
  A shallow embedding of \<^verbatim>\<open>lms/djangoapps/grades/new/course_grade_factory.py\<close>.
  The factory reads and writes a table of persisted grades, asks a grade calculator for a
  fresh grade, and sends two signals. All of that is made explicit: the table and an
  ordered trace of the effects are the \<open>world\<close>, which every operation takes and returns;
  the configuration predicates and the calculator are the \<open>env\<close>, which is only read.
  Log lines and the statsd timer observe and change nothing; they are left out.
\<close>

type_synonym course_key = string
type_synonym timestamp = nat

record user =
  user_id :: nat

text \<open>
  The course object behind a \<^verbatim>\<open>CourseData\<close>: its key, the version and edit time of
  its content, the hash of its grading policy, and its end date (\<^verbatim>\<open>course.end\<close>).
\<close>

record course =
  c_id :: course_key
  c_version :: "string option"
  c_edited_on :: "timestamp option"
  c_grading_policy_hash :: string
  c_end :: "timestamp option"

record course_data =
  cd_user :: "user option"
  cd_course :: course

text \<open>
  Modelled from the spec: the constructor of \<^verbatim>\<open>CourseData\<close> (course_data.py is not
  among the sources). The context is built fresh per call from the caller's course inputs,
  here the resolved course, and is never changed afterwards; \<^verbatim>\<open>iter\<close> builds it
  with no user.
\<close>

definition CourseData :: "user option \<Rightarrow> course \<Rightarrow> course_data" where
  "CourseData u c = \<lparr>cd_user = u, cd_course = c\<rparr>"

definition course_key :: "course_data \<Rightarrow> course_key" where
  "course_key cd = c_id (cd_course cd)"

definition version :: "course_data \<Rightarrow> string option" where
  "version cd = c_version (cd_course cd)"

definition edited_on :: "course_data \<Rightarrow> timestamp option" where
  "edited_on cd = c_edited_on (cd_course cd)"

definition grading_policy_hash :: "course_data \<Rightarrow> string" where
  "grading_policy_hash cd = c_grading_policy_hash (cd_course cd)"

text \<open>
  \<^verbatim>\<open>course_grade.passed\<close> is tested with \<^verbatim>\<open>is True\<close>, so the value is kept
  as the three states the spec names: true, false, and not determined.
\<close>

datatype passed_value = Passed_True | Passed_False | Passed_Undetermined

record course_grade =
  cg_user :: user
  cg_course_data :: course_data
  percent :: real
  letter_grade :: "string option"
  passed :: passed_value
  attempted :: bool

text \<open>A row of \<^verbatim>\<open>PersistentCourseGrade\<close>, one per user id and course key.\<close>

record persistent_grade =
  pg_user_id :: nat
  pg_course_id :: course_key
  pg_course_version :: "string option"
  pg_course_edited_timestamp :: "timestamp option"
  pg_grading_policy_hash :: string
  pg_percent_grade :: real
  pg_letter_grade :: string
  pg_passed_timestamp :: "timestamp option"

text \<open>
  What can be raised. \<open>DoesNotExist\<close> and the calculator's errors are instances of
  Python's \<^verbatim>\<open>Exception\<close>; \<open>KeyboardInterrupt\<close> and \<open>SystemExit\<close> derive from
  \<^verbatim>\<open>BaseException\<close> only, so an \<^verbatim>\<open>except Exception\<close> clause does not catch them.
\<close>

datatype exn = DoesNotExist | CalculatorError string | KeyboardInterrupt | SystemExit

fun is_Exception :: "exn \<Rightarrow> bool" where
  "is_Exception DoesNotExist = True"
| "is_Exception (CalculatorError _) = True"
| "is_Exception KeyboardInterrupt = False"
| "is_Exception SystemExit = False"

text \<open>What the grade calculator returns for a learner in a course.\<close>

record breakdown =
  b_percent :: real
  b_letter_grade :: "string option"
  b_passed :: passed_value
  b_attempted :: bool

datatype event =
    Calculate user course_key
  | BulkCreateUnsaved user course_key
  | Upsert persistent_grade
  | GradeChanged user course_grade course_key "timestamp option"
  | NowPassed user course_key
  | ClearCache course_key

text \<open>
  The events are the calls that leave the factory: the calculator, the two writes of a
  persisted grade, the two signals (\<^verbatim>\<open>send_robust\<close> swallows what a listener
  raises, so sending never fails), and the clearing of the course's cache.
\<close>

record world =
  grades :: "nat \<times> course_key \<rightharpoonup> persistent_grade"
  trace :: "event list"

text \<open>
  What the factory reads from its surroundings: the two configuration predicates of
  \<^verbatim>\<open>grades.config\<close>, the waffle switch \<^verbatim>\<open>WRITE_ONLY_IF_ENGAGED\<close>, the grade
  calculator behind \<^verbatim>\<open>CourseGrade.update()\<close>, which may raise, and the time of day.
\<close>

record env =
  should_persist_grades :: "course_key \<Rightarrow> bool"
  assume_zero_if_absent :: "course_key \<Rightarrow> bool"
  write_only_if_engaged :: bool
  compute :: "user \<Rightarrow> course_data \<Rightarrow> exn + breakdown"
  now :: timestamp

definition emit :: "event \<Rightarrow> world \<Rightarrow> world" where
  "emit e w = w\<lparr>trace := trace w @ [e]\<rparr>"

fun is_calculate :: "event \<Rightarrow> bool" where
  "is_calculate (Calculate _ _) = True"
| "is_calculate _ = False"

fun is_upsert :: "event \<Rightarrow> bool" where
  "is_upsert (Upsert _) = True"
| "is_upsert _ = False"

fun is_notification :: "event \<Rightarrow> bool" where
  "is_notification (GradeChanged _ _ _ _) = True"
| "is_notification (NowPassed _ _) = True"
| "is_notification _ = False"

fun is_clear_cache :: "event \<Rightarrow> bool" where
  "is_clear_cache (ClearCache _) = True"
| "is_clear_cache _ = False"

text \<open>The events an operation added: the trace after it, without the trace before it.\<close>

definition added :: "world \<Rightarrow> world \<Rightarrow> event list" where
  "added w w' = drop (length (trace w)) (trace w')"

section \<open>Collaborators\<close>

text \<open>
  Modelled from the spec: the classes \<^verbatim>\<open>CourseGrade\<close> and
  \<^verbatim>\<open>ZeroCourseGrade\<close> (course_grade.py is not among the sources). A grade is the
  in-memory view of a context with a breakdown; built directly it carries the values the
  caller gives (\<^verbatim>\<open>_update\<close> gives none, so it starts from percent 0, no letter grade
  and not passed), and no graded work counts as attempted until \<^verbatim>\<open>update()\<close> has
  run the calculator. The zero grade has percent 0, an empty letter grade, passed false and
  attempted false.
\<close>

definition CourseGrade :: "user \<Rightarrow> course_data \<Rightarrow> real \<Rightarrow> string option \<Rightarrow> passed_value \<Rightarrow> course_grade" where
  "CourseGrade u cd p l ps =
     \<lparr>cg_user = u, cg_course_data = cd, percent = p, letter_grade = l, passed = ps,
      attempted = False\<rparr>"

definition ZeroCourseGrade :: "user \<Rightarrow> course_data \<Rightarrow> course_grade" where
  "ZeroCourseGrade u cd =
     \<lparr>cg_user = u, cg_course_data = cd, percent = 0, letter_grade = None,
      passed = Passed_False, attempted = False\<rparr>"

text \<open>
  Modelled from the spec: \<^verbatim>\<open>CourseGrade.update()\<close>, the call of the grade
  calculator. It either raises or fills the grade with the computed breakdown. The
  invocation itself is recorded in the trace, whatever its outcome.
\<close>

definition CourseGrade_update :: "env \<Rightarrow> course_grade \<Rightarrow> world \<Rightarrow> (exn + course_grade) \<times> world" where
  "CourseGrade_update en g w =
     (let w1 = emit (Calculate (cg_user g) (course_key (cg_course_data g))) w
      in case compute en (cg_user g) (cg_course_data g) of
           Inl e \<Rightarrow> (Inl e, w1)
         | Inr b \<Rightarrow>
             (Inr (g\<lparr>percent := b_percent b, letter_grade := b_letter_grade b,
                     passed := b_passed b, attempted := b_attempted b\<rparr>), w1))"

text \<open>
  Modelled from the spec: \<^verbatim>\<open>PersistentCourseGrade.read\<close> and
  \<^verbatim>\<open>PersistentCourseGrade.update_or_create\<close> (models.py is not among the
  sources). The store is keyed by learner and course; \<open>read\<close> finds the row or raises
  \<open>DoesNotExist\<close>; the upsert replaces the row of its key, and the row has a passed
  timestamp exactly when \<open>passed\<close> is true.
\<close>

definition PersistentCourseGrade_read :: "world \<Rightarrow> nat \<Rightarrow> course_key \<Rightarrow> exn + persistent_grade" where
  "PersistentCourseGrade_read w uid key =
     (case grades w (uid, key) of None \<Rightarrow> Inl DoesNotExist | Some pg \<Rightarrow> Inr pg)"

definition new_row ::
  "env \<Rightarrow> nat \<Rightarrow> course_key \<Rightarrow> string option \<Rightarrow> timestamp option \<Rightarrow> string \<Rightarrow> real \<Rightarrow> string \<Rightarrow>
   passed_value \<Rightarrow> persistent_grade" where
  "new_row en uid key ver edited hash pct letter ps =
     \<lparr>pg_user_id = uid, pg_course_id = key, pg_course_version = ver,
      pg_course_edited_timestamp = edited, pg_grading_policy_hash = hash,
      pg_percent_grade = pct, pg_letter_grade = letter,
      pg_passed_timestamp = (if ps = Passed_True then Some (now en) else None)\<rparr>"

definition update_or_create ::
  "env \<Rightarrow> nat \<Rightarrow> course_key \<Rightarrow> string option \<Rightarrow> timestamp option \<Rightarrow> string \<Rightarrow> real \<Rightarrow> string \<Rightarrow>
   passed_value \<Rightarrow> world \<Rightarrow> world" where
  "update_or_create en uid key ver edited hash pct letter ps w =
     (let row = new_row en uid key ver edited hash pct letter ps
      in emit (Upsert row) (w\<lparr>grades := (grades w)((uid, key) \<mapsto> row)\<rparr>))"

text \<open>
  The subsection grades' \<^verbatim>\<open>bulk_create_unsaved\<close> and
  \<^verbatim>\<open>VisibleBlocks.clear_cache\<close> act on tables and caches outside the factory; the
  calls are recorded in the trace, in order.
\<close>

definition bulk_create_unsaved :: "user \<Rightarrow> course_key \<Rightarrow> world \<Rightarrow> world" where
  "bulk_create_unsaved u key w = emit (BulkCreateUnsaved u key) w"

definition clear_cache :: "course_key \<Rightarrow> world \<Rightarrow> world" where
  "clear_cache key w = emit (ClearCache key) w"

section \<open>The factory\<close>

text \<open>\<^verbatim>\<open>letter_grade or ""\<close>: an absent or empty letter grade is stored as the empty string.\<close>

definition letter_or_empty :: "string option \<Rightarrow> string" where
  "letter_or_empty l = (case l of None \<Rightarrow> [] | Some s \<Rightarrow> s)"

definition priv_create_zero :: "user \<Rightarrow> course_data \<Rightarrow> course_grade" where
  "priv_create_zero u cd = ZeroCourseGrade u cd"

definition priv_read :: "env \<Rightarrow> user \<Rightarrow> course_data \<Rightarrow> world \<Rightarrow> exn + (course_grade \<times> string)" where
  "priv_read en u cd w =
     (if \<not> should_persist_grades en (course_key cd) then Inl DoesNotExist
      else case PersistentCourseGrade_read w (user_id u) (course_key cd) of
             Inl e \<Rightarrow> Inl e
           | Inr persistent_grade \<Rightarrow>
               Inr (CourseGrade u cd (pg_percent_grade persistent_grade)
                      (Some (pg_letter_grade persistent_grade))
                      (if pg_passed_timestamp persistent_grade \<noteq> None then Passed_True
                       else Passed_False),
                    pg_grading_policy_hash persistent_grade))"

definition priv_update :: "env \<Rightarrow> user \<Rightarrow> course_data \<Rightarrow> bool \<Rightarrow> world \<Rightarrow> (exn + course_grade) \<times> world" where
  "priv_update en u cd read_only w =
     (case CourseGrade_update en (CourseGrade u cd 0 None Passed_False) w of
        (Inl e, w1) \<Rightarrow> (Inl e, w1)
      | (Inr g, w1) \<Rightarrow>
          (let should_persist =
                 (\<not> read_only \<and> should_persist_grades en (course_key cd) \<and>
                  (\<not> write_only_if_engaged en \<or> attempted g));
               w2 = (if should_persist
                     then update_or_create en (user_id u) (course_key cd) (version cd)
                            (edited_on cd) (grading_policy_hash cd) (percent g)
                            (letter_or_empty (letter_grade g)) (passed g)
                            (bulk_create_unsaved u (course_key cd) w1)
                     else w1);
               w3 = emit (GradeChanged u g (course_key cd) (c_end (cd_course cd))) w2;
               w4 = (if passed g = Passed_True then emit (NowPassed u (course_key cd)) w3
                     else w3)
           in (Inr g, w4)))"

definition create :: "env \<Rightarrow> user \<Rightarrow> course \<Rightarrow> world \<Rightarrow> (exn + course_grade) \<times> world" where
  "create en u c w =
     (let cd = CourseData (Some u) c
      in case priv_read en u cd w of
           Inr (g, read_policy_hash) \<Rightarrow>
             if read_policy_hash = grading_policy_hash cd then (Inr g, w)
             else priv_update en u cd False w
         | Inl DoesNotExist \<Rightarrow>
             if assume_zero_if_absent en (course_key cd) then (Inr (priv_create_zero u cd), w)
             else priv_update en u cd True w
         | Inl e \<Rightarrow> (Inl e, w))"

definition read :: "env \<Rightarrow> user \<Rightarrow> course \<Rightarrow> world \<Rightarrow> (exn + course_grade option) \<times> world" where
  "read en u c w =
     (let cd = CourseData (Some u) c
      in case priv_read en u cd w of
           Inr (g, _) \<Rightarrow> (Inr (Some g), w)
         | Inl DoesNotExist \<Rightarrow>
             if assume_zero_if_absent en (course_key cd)
             then (Inr (Some (priv_create_zero u cd)), w)
             else (Inr None, w)
         | Inl e \<Rightarrow> (Inl e, w))"

definition update :: "env \<Rightarrow> user \<Rightarrow> course \<Rightarrow> world \<Rightarrow> (exn + course_grade) \<times> world" where
  "update en u c w = priv_update en u (CourseData (Some u) c) False w"

section \<open>Batch iteration\<close>

record grade_result =
  gr_student :: user
  gr_course_grade :: "course_grade option"
  gr_error :: "exn option"

definition GradeResult :: "user \<Rightarrow> course_grade option \<Rightarrow> exn option \<Rightarrow> grade_result" where
  "GradeResult u g e = \<lparr>gr_student = u, gr_course_grade = g, gr_error = e\<rparr>"

text \<open>
  \<^verbatim>\<open>_iter_grade_result\<close>: the chosen entry point is called with the course of the
  shared context. The handler is \<^verbatim>\<open>except Exception\<close>: an \<^verbatim>\<open>Exception\<close> that
  the entry point raises is caught and becomes the error of the result; anything else it
  raises goes on to the caller.
\<close>

definition priv_iter_grade_result :: "env \<Rightarrow> user \<Rightarrow> course_data \<Rightarrow> bool \<Rightarrow> world \<Rightarrow> (exn + grade_result) \<times> world" where
  "priv_iter_grade_result en u cd force_update w =
     (case (if force_update then update else create) en u (cd_course cd) w of
        (Inr g, w') \<Rightarrow> (Inr (GradeResult u (Some g) None), w')
      | (Inl exc, w') \<Rightarrow>
          if is_Exception exc then (Inr (GradeResult u None (Some exc)), w')
          else (Inl exc, w'))"

text \<open>
  \<^verbatim>\<open>_course_transaction\<close> is a generator-based context manager whose body is
  \<^verbatim>\<open>yield\<close> followed by \<^verbatim>\<open>VisibleBlocks.clear_cache(course_key)\<close>, with no
  \<^verbatim>\<open>try\<close>/\<^verbatim>\<open>finally\<close>. Entering it runs nothing. Leaving the
  \<^verbatim>\<open>with\<close> block normally resumes it after its \<^verbatim>\<open>yield\<close>; leaving the block
  by an exception throws that exception in at the \<^verbatim>\<open>yield\<close>, and the statement after
  it is not reached.
\<close>

definition priv_course_transaction_exit :: "course_key \<Rightarrow> bool \<Rightarrow> world \<Rightarrow> world" where
  "priv_course_transaction_exit key raised w = (if raised then w else clear_cache key w)"

text \<open>
  \<^verbatim>\<open>iter\<close> is a generator function. Calling it runs none of its body; each
  \<^verbatim>\<open>next\<close> runs the body up to the following \<^verbatim>\<open>yield\<close>. The generator object
  is either not started, parked at the \<^verbatim>\<open>yield\<close> inside both \<^verbatim>\<open>with\<close> blocks
  (with the learners still to come), or finished.
\<close>

datatype iter_state =
    Unstarted "user list" course bool
  | AtYield course_data "user list" bool
  | Finished

definition iter :: "user list \<Rightarrow> course \<Rightarrow> bool \<Rightarrow> iter_state" where
  "iter users c force_update = Unstarted users c force_update"

text \<open>
  What \<^verbatim>\<open>next(gen)\<close> gives its caller: the yielded result, StopIteration when the
  body has run to its end, or the exception that left the body.
\<close>

datatype next_result = Yielded grade_result | StopIteration | Raised exn

text \<open>
  The \<^verbatim>\<open>for\<close> loop, from the point where it asks for the following learner. An
  exception that \<^verbatim>\<open>_iter_grade_result\<close> lets through leaves both \<^verbatim>\<open>with\<close>
  blocks and ends the generator.
\<close>

fun iter_loop :: "env \<Rightarrow> course_data \<Rightarrow> user list \<Rightarrow> bool \<Rightarrow> world \<Rightarrow> (next_result \<times> iter_state) \<times> world" where
  "iter_loop en cd [] force_update w =
     ((StopIteration, Finished), priv_course_transaction_exit (course_key cd) False w)"
| "iter_loop en cd (u # users) force_update w =
     (case priv_iter_grade_result en u cd force_update w of
        (Inr r, w') \<Rightarrow> ((Yielded r, AtYield cd users force_update), w')
      | (Inl exc, w') \<Rightarrow>
          ((Raised exc, Finished), priv_course_transaction_exit (course_key cd) True w'))"

fun iter_next :: "env \<Rightarrow> iter_state \<Rightarrow> world \<Rightarrow> (next_result \<times> iter_state) \<times> world" where
  "iter_next en (Unstarted users c force_update) w =
     iter_loop en (CourseData None c) users force_update w"
| "iter_next en (AtYield cd users force_update) w = iter_loop en cd users force_update w"
| "iter_next en Finished w = ((StopIteration, Finished), w)"

text \<open>
  \<^verbatim>\<open>gen.close()\<close>, which is also what happens to a generator that is abandoned:
  GeneratorExit is raised at the \<^verbatim>\<open>yield\<close> where the generator is parked and unwinds
  the \<^verbatim>\<open>with\<close> blocks around it. A generator that never started, or has finished,
  has nothing to unwind.
\<close>

fun iter_close :: "iter_state \<Rightarrow> world \<Rightarrow> iter_state \<times> world" where
  "iter_close (Unstarted users c force_update) w = (Finished, w)"
| "iter_close (AtYield cd users force_update) w =
     (Finished, priv_course_transaction_exit (course_key cd) True w)"
| "iter_close Finished w = (Finished, w)"

fun iter_size :: "iter_state \<Rightarrow> nat" where
  "iter_size (Unstarted users c force_update) = Suc (Suc (length users))"
| "iter_size (AtYield cd users force_update) = Suc (length users)"
| "iter_size Finished = 0"

text \<open>
  A consumer that runs the generator to its end, as a \<^verbatim>\<open>for\<close> loop does. It ends
  with the results it has seen and, when the generator raised, the exception.
\<close>

function drain :: "env \<Rightarrow> iter_state \<Rightarrow> world \<Rightarrow> (grade_result list \<times> exn option) \<times> world" where
  "drain en g w =
     (case iter_next en g w of
        ((StopIteration, g'), w') \<Rightarrow> (([], None), w')
      | ((Raised exc, g'), w') \<Rightarrow> (([], Some exc), w')
      | ((Yielded r, g'), w') \<Rightarrow>
          (case drain en g' w' of ((rs, x), w'') \<Rightarrow> ((r # rs, x), w'')))"
  by pat_completeness auto
termination
proof (relation "measure (\<lambda>(en, g, w). iter_size g)")
  show "wf (measure (\<lambda>(en, g, w). iter_size g))" by simp
next
  fix en :: env and g :: iter_state and w :: world
  fix x :: "next_result \<times> iter_state" and w' :: world
  fix nr :: next_result and g' :: iter_state and r :: grade_result
  assume a: "((x, w')) = iter_next en g w" "(nr, g') = x" "nr = Yielded r"
  have "iter_size g' < iter_size g"
  proof (cases g)
    case (Unstarted users c fu)
    with a show ?thesis by (cases users) (auto split: prod.splits sum.splits)
  next
    case (AtYield cd users fu)
    with a show ?thesis by (cases users) (auto split: prod.splits sum.splits)
  next
    case Finished
    with a show ?thesis by auto
  qed
  then show "((en, g', w'), (en, g, w)) \<in> measure (\<lambda>(en, g, w). iter_size g)" by simp
qed

declare drain.simps [simp del]

text \<open>
  A consumer that takes at most \<open>n\<close> results and then lets go of the generator, which
  closes it. It stops asking when the generator stops or raises.
\<close>

fun take_results :: "nat \<Rightarrow> env \<Rightarrow> iter_state \<Rightarrow> world \<Rightarrow> (grade_result list \<times> iter_state) \<times> world" where
  "take_results 0 en g w = (([], g), w)"
| "take_results (Suc n) en g w =
     (case iter_next en g w of
        ((Yielded r, g'), w') \<Rightarrow>
          (case take_results n en g' w' of ((rs, g''), w'') \<Rightarrow> ((r # rs, g''), w''))
      | ((StopIteration, g'), w') \<Rightarrow> (([], g'), w')
      | ((Raised exc, g'), w') \<Rightarrow> (([], g'), w'))"

definition take_and_close :: "nat \<Rightarrow> env \<Rightarrow> iter_state \<Rightarrow> world \<Rightarrow> grade_result list \<times> world" where
  "take_and_close n en g w =
     (case take_results n en g w of ((rs, g'), w') \<Rightarrow> (rs, snd (iter_close g' w')))"

section \<open>Concrete learners, courses and stores\<close>

text \<open>
  Four learners of one course: the calculator gives the first a passing grade, fails for
  the second, gives the third a grade with no graded work attempted, and is interrupted
  from the keyboard while it works on the fourth. The store is
  either empty or holds one row for the first or third learner, computed under the
  current grading policy or under an older one.
\<close>

definition alice :: user where
  "alice = \<lparr>user_id = 1\<rparr>"

definition bob :: user where
  "bob = \<lparr>user_id = 2\<rparr>"

definition carol :: user where
  "carol = \<lparr>user_id = 3\<rparr>"


definition demo_course :: course where
  "demo_course =
     \<lparr>c_id = ''demo'', c_version = Some ''v2'', c_edited_on = Some 20,
      c_grading_policy_hash = ''new'', c_end = Some 90\<rparr>"

definition demo_compute :: "user \<Rightarrow> course_data \<Rightarrow> exn + breakdown" where
  "demo_compute u cd =
     (if user_id u = 1
      then Inr \<lparr>b_percent = 1, b_letter_grade = Some ''A'', b_passed = Passed_True,
                b_attempted = True\<rparr>
      else if user_id u = 2 then Inl (CalculatorError ''boom'')
      else if user_id u = 4 then Inl KeyboardInterrupt
      else Inr \<lparr>b_percent = 0, b_letter_grade = None, b_passed = Passed_False,
                b_attempted = False\<rparr>)"

definition demo_env :: "bool \<Rightarrow> bool \<Rightarrow> bool \<Rightarrow> env" where
  "demo_env persist zero gate =
     \<lparr>should_persist_grades = (\<lambda>_. persist), assume_zero_if_absent = (\<lambda>_. zero),
      write_only_if_engaged = gate, compute = demo_compute, now = 50\<rparr>"

definition demo_row :: "nat \<Rightarrow> string \<Rightarrow> persistent_grade" where
  "demo_row uid hash =
     \<lparr>pg_user_id = uid, pg_course_id = ''demo'', pg_course_version = Some ''v1'',
      pg_course_edited_timestamp = Some 10, pg_grading_policy_hash = hash,
      pg_percent_grade = 1 / 2, pg_letter_grade = ''C'', pg_passed_timestamp = Some 30\<rparr>"

definition empty_world :: world where
  "empty_world = \<lparr>grades = Map.empty, trace = []\<rparr>"

definition stored :: "persistent_grade \<Rightarrow> world" where
  "stored row = \<lparr>grades = [(pg_user_id row, pg_course_id row) \<mapsto> row], trace = []\<rparr>"

section \<open>Facts about the operations\<close>

lemma trace_emit: "trace (emit e w) = trace w @ [e]"
  by (simp add: emit_def)

lemma grades_emit: "grades (emit e w) = grades w"
  by (simp add: emit_def)

lemma added_append: "trace w' = trace w @ xs \<Longrightarrow> added w w' = xs"
  by (simp add: added_def)

lemma added_same: "added w w = []"
  by (simp add: added_def)

lemma priv_update_Inl:
  "compute en u cd = Inl e \<Longrightarrow>
   priv_update en u cd ro w = (Inl e, emit (Calculate u (course_key cd)) w)"
  by (simp add: priv_update_def CourseGrade_update_def CourseGrade_def)

lemma priv_update_Inr_fst:
  "compute en u cd = Inr b \<Longrightarrow>
   fst (priv_update en u cd ro w) =
     Inr \<lparr>cg_user = u, cg_course_data = cd, percent = b_percent b,
          letter_grade = b_letter_grade b, passed = b_passed b, attempted = b_attempted b\<rparr>"
  by (simp add: priv_update_def CourseGrade_update_def CourseGrade_def Let_def)

lemma priv_update_fst_indep:
  "fst (priv_update en u cd ro w) = fst (priv_update en u cd ro' w')"
  by (cases "compute en u cd") (simp_all add: priv_update_Inl priv_update_Inr_fst)

lemma priv_update_Inr_trace:
  "compute en u cd = Inr b \<Longrightarrow>
   trace (snd (priv_update en u cd ro w)) =
     trace w @ Calculate u (course_key cd) #
       (if \<not> ro \<and> should_persist_grades en (course_key cd) \<and>
            (\<not> write_only_if_engaged en \<or> b_attempted b)
        then [BulkCreateUnsaved u (course_key cd),
              Upsert (new_row en (user_id u) (course_key cd) (version cd) (edited_on cd)
                        (grading_policy_hash cd) (b_percent b)
                        (letter_or_empty (b_letter_grade b)) (b_passed b))]
        else []) @
       GradeChanged u
         \<lparr>cg_user = u, cg_course_data = cd, percent = b_percent b,
          letter_grade = b_letter_grade b, passed = b_passed b, attempted = b_attempted b\<rparr>
         (course_key cd) (c_end (cd_course cd)) #
       (if b_passed b = Passed_True then [NowPassed u (course_key cd)] else [])"
  by (simp add: priv_update_def CourseGrade_update_def CourseGrade_def Let_def
      update_or_create_def bulk_create_unsaved_def trace_emit)

lemma priv_update_Inr_grades:
  "compute en u cd = Inr b \<Longrightarrow>
   grades (snd (priv_update en u cd ro w)) =
     (if \<not> ro \<and> should_persist_grades en (course_key cd) \<and>
          (\<not> write_only_if_engaged en \<or> b_attempted b)
      then (grades w)((user_id u, course_key cd) \<mapsto>
              new_row en (user_id u) (course_key cd) (version cd) (edited_on cd)
                (grading_policy_hash cd) (b_percent b)
                (letter_or_empty (b_letter_grade b)) (b_passed b))
      else grades w)"
  by (auto simp: priv_update_def CourseGrade_update_def CourseGrade_def Let_def
      update_or_create_def bulk_create_unsaved_def grades_emit)

lemma priv_read_error: "priv_read en u cd w = Inl e \<Longrightarrow> e = DoesNotExist"
  by (auto simp: priv_read_def PersistentCourseGrade_read_def split: if_splits option.splits)

lemma priv_read_found:
  "should_persist_grades en (course_key cd) \<Longrightarrow> grades w (user_id u, course_key cd) = Some pg \<Longrightarrow>
   priv_read en u cd w =
     Inr (CourseGrade u cd (pg_percent_grade pg) (Some (pg_letter_grade pg))
            (if pg_passed_timestamp pg \<noteq> None then Passed_True else Passed_False),
          pg_grading_policy_hash pg)"
  by (simp add: priv_read_def PersistentCourseGrade_read_def)

lemma priv_read_absent:
  "grades w (user_id u, course_key cd) = None \<Longrightarrow> priv_read en u cd w = Inl DoesNotExist"
  by (simp add: priv_read_def PersistentCourseGrade_read_def)

lemma priv_read_disabled:
  "\<not> should_persist_grades en (course_key cd) \<Longrightarrow> priv_read en u cd w = Inl DoesNotExist"
  by (simp add: priv_read_def)

lemma course_key_CourseData: "course_key (CourseData uo c) = c_id c"
  by (simp add: course_key_def CourseData_def)

lemma grading_policy_hash_CourseData: "grading_policy_hash (CourseData uo c) = c_grading_policy_hash c"
  by (simp add: grading_policy_hash_def CourseData_def)

lemma version_CourseData: "version (CourseData uo c) = c_version c"
  by (simp add: version_def CourseData_def)

lemma edited_on_CourseData: "edited_on (CourseData uo c) = c_edited_on c"
  by (simp add: edited_on_def CourseData_def)

lemma cd_course_CourseData: "cd_course (CourseData uo c) = c"
  by (simp add: CourseData_def)

lemmas CourseData_simps =
  course_key_CourseData grading_policy_hash_CourseData version_CourseData edited_on_CourseData
  cd_course_CourseData

lemma priv_update_added:
  "added w (snd (priv_update en u cd ro w)) =
     Calculate u (course_key cd) #
       (case compute en u cd of
          Inl e \<Rightarrow> []
        | Inr b \<Rightarrow>
            (if \<not> ro \<and> should_persist_grades en (course_key cd) \<and>
                (\<not> write_only_if_engaged en \<or> b_attempted b)
             then [BulkCreateUnsaved u (course_key cd),
                   Upsert (new_row en (user_id u) (course_key cd) (version cd) (edited_on cd)
                             (grading_policy_hash cd) (b_percent b)
                             (letter_or_empty (b_letter_grade b)) (b_passed b))]
             else []) @
            GradeChanged u
              \<lparr>cg_user = u, cg_course_data = cd, percent = b_percent b,
               letter_grade = b_letter_grade b, passed = b_passed b,
               attempted = b_attempted b\<rparr>
              (course_key cd) (c_end (cd_course cd)) #
            (if b_passed b = Passed_True then [NowPassed u (course_key cd)] else []))"
proof (cases "compute en u cd")
  case (Inl e)
  then show ?thesis
    by (simp add: priv_update_Inl added_def trace_emit)
next
  case (Inr b)
  show ?thesis
    by (rule added_append) (simp add: priv_update_Inr_trace [OF Inr] Inr)
qed

lemma priv_update_trace_extends:
  "trace (snd (priv_update en u cd ro w)) = trace w @ added w (snd (priv_update en u cd ro w))"
proof (cases "compute en u cd")
  case (Inl e)
  then show ?thesis
    by (simp add: priv_update_Inl added_def trace_emit)
next
  case (Inr b)
  show ?thesis
    by (simp add: added_def priv_update_Inr_trace [OF Inr])
qed

lemma priv_update_grades:
  "grades (snd (priv_update en u cd ro w)) =
     (case compute en u cd of
        Inl e \<Rightarrow> grades w
      | Inr b \<Rightarrow>
          if \<not> ro \<and> should_persist_grades en (course_key cd) \<and>
             (\<not> write_only_if_engaged en \<or> b_attempted b)
          then (grades w)((user_id u, course_key cd) \<mapsto>
                  new_row en (user_id u) (course_key cd) (version cd) (edited_on cd)
                    (grading_policy_hash cd) (b_percent b)
                    (letter_or_empty (b_letter_grade b)) (b_passed b))
          else grades w)"
proof (cases "compute en u cd")
  case (Inl e)
  then show ?thesis by (simp add: priv_update_Inl grades_emit)
next
  case (Inr b)
  then show ?thesis by (simp add: priv_update_Inr_grades [OF Inr])
qed

lemma pg_hash_new_row:
  "pg_grading_policy_hash (new_row en uid key ver edited hash pct letter ps) = hash"
  by (simp add: new_row_def)

lemma create_miss:
  assumes "priv_read en u (CourseData (Some u) c) w = Inl DoesNotExist"
  shows "create en u c w =
     (if assume_zero_if_absent en (c_id c)
      then (Inr (ZeroCourseGrade u (CourseData (Some u) c)), w)
      else priv_update en u (CourseData (Some u) c) True w)"
  using assms by (simp add: create_def Let_def course_key_CourseData priv_create_zero_def)

lemma read_miss:
  assumes "priv_read en u (CourseData (Some u) c) w = Inl DoesNotExist"
  shows "read en u c w =
     (if assume_zero_if_absent en (c_id c)
      then (Inr (Some (ZeroCourseGrade u (CourseData (Some u) c))), w)
      else (Inr None, w))"
  using assms by (simp add: read_def Let_def course_key_CourseData priv_create_zero_def)

text \<open>\<^verbatim>\<open>create\<close> either returns at once and leaves the world alone, or is \<^verbatim>\<open>_update\<close>.\<close>

lemma create_cases:
  "(\<exists>g. create en u c w = (Inr g, w)) \<or>
   (\<exists>ro. create en u c w = priv_update en u (CourseData (Some u) c) ro w)"
proof (cases "priv_read en u (CourseData (Some u) c) w")
  case (Inl e)
  then have "priv_read en u (CourseData (Some u) c) w = Inl DoesNotExist"
    using priv_read_error by blast
  then show ?thesis by (auto simp: create_miss)
next
  case (Inr p)
  then show ?thesis by (cases p) (auto simp: create_def Let_def)
qed

section \<open>The fast path of create\<close>

text \<open>
  C1, as stated, fails: \<^verbatim>\<open>_read\<close> raises \<open>DoesNotExist\<close> before it looks at the
  store when persistence is disabled for the course, so a stored grade with the current
  policy hash is then not returned. With persistence disabled and a stored row whose hash is
  the current one, \<^verbatim>\<open>create\<close> runs the calculator and sends notifications.
\<close>

theorem create_fast_path_counterexample:
  "grades (stored (demo_row 1 ''new'')) (user_id alice, c_id demo_course) = Some (demo_row 1 ''new'') \<and>
   pg_grading_policy_hash (demo_row 1 ''new'') = c_grading_policy_hash demo_course \<and>
   fst (create (demo_env False False False) alice demo_course (stored (demo_row 1 ''new''))) \<noteq>
     Inr (CourseGrade alice (CourseData (Some alice) demo_course) (1 / 2) (Some ''C'') Passed_True) \<and>
   filter is_calculate
     (trace (snd (create (demo_env False False False) alice demo_course (stored (demo_row 1 ''new''))))) =
     [Calculate alice ''demo''] \<and>
   filter is_notification
     (trace (snd (create (demo_env False False False) alice demo_course (stored (demo_row 1 ''new''))))) \<noteq> []"
proof -
  let ?en = "demo_env False False False"
  let ?cd = "CourseData (Some alice) demo_course"
  let ?w = "stored (demo_row 1 ''new'')"
  have nr: "priv_read ?en alice ?cd ?w = Inl DoesNotExist"
    by (rule priv_read_disabled) (simp add: demo_env_def)
  have c: "create ?en alice demo_course ?w = priv_update ?en alice ?cd True ?w"
    using create_miss [OF nr] by (simp add: demo_env_def)
  have b: "compute ?en alice ?cd =
             Inr \<lparr>b_percent = 1, b_letter_grade = Some ''A'', b_passed = Passed_True,
                  b_attempted = True\<rparr>"
    by (simp add: demo_env_def demo_compute_def alice_def)
  have k: "course_key ?cd = ''demo''"
    by (simp add: course_key_CourseData demo_course_def)
  show ?thesis
    unfolding c
    by (simp add: priv_update_Inr_fst [OF b] priv_update_Inr_trace [OF b] k)
      (simp add: stored_def demo_row_def alice_def demo_course_def demo_env_def CourseGrade_def)
qed

text \<open>
  C1, amended: where persistence is enabled for the course and the store holds a grade for
  the learner whose policy hash equals the context's, \<^verbatim>\<open>create\<close> returns the grade
  built from the stored row and returns the world as it was: the calculator is not run, the
  store is not written and nothing is sent.
\<close>

theorem create_fast_path:
  assumes "should_persist_grades en (c_id c)"
    and "grades w (user_id u, c_id c) = Some pg"
    and "pg_grading_policy_hash pg = c_grading_policy_hash c"
  shows "create en u c w =
           (Inr (CourseGrade u (CourseData (Some u) c) (pg_percent_grade pg)
                   (Some (pg_letter_grade pg))
                   (if pg_passed_timestamp pg \<noteq> None then Passed_True else Passed_False)), w)"
  using assms
  by (simp add: create_def Let_def priv_read_found course_key_CourseData
      grading_policy_hash_CourseData)

theorem create_fast_path_witness:
  "create (demo_env True False False) alice demo_course (stored (demo_row 1 ''new'')) =
     (Inr (CourseGrade alice (CourseData (Some alice) demo_course) (1 / 2) (Some ''C'') Passed_True),
      stored (demo_row 1 ''new''))"
  using create_fast_path [of "demo_env True False False" demo_course "stored (demo_row 1 ''new'')"
      alice "demo_row 1 ''new''"]
  by (simp add: demo_env_def demo_course_def stored_def demo_row_def alice_def)

section \<open>Recomputation after a policy change\<close>

text \<open>
  C2, as stated, fails: a stored grade with an older policy hash is only seen when
  persistence is enabled for the course. With persistence disabled and
  assume-zero-if-absent set, \<^verbatim>\<open>create\<close> returns the zero grade and never runs the
  calculator, although a stale grade is stored.
\<close>

theorem create_stale_persists_counterexample:
  "grades (stored (demo_row 1 ''old'')) (user_id alice, c_id demo_course) = Some (demo_row 1 ''old'') \<and>
   pg_grading_policy_hash (demo_row 1 ''old'') \<noteq> c_grading_policy_hash demo_course \<and>
   create (demo_env False True False) alice demo_course (stored (demo_row 1 ''old'')) =
     (Inr (ZeroCourseGrade alice (CourseData (Some alice) demo_course)), stored (demo_row 1 ''old'')) \<and>
   filter is_calculate
     (added (stored (demo_row 1 ''old''))
        (snd (create (demo_env False True False) alice demo_course (stored (demo_row 1 ''old''))))) = []"
proof -
  let ?en = "demo_env False True False"
  let ?w = "stored (demo_row 1 ''old'')"
  have nr: "priv_read ?en alice (CourseData (Some alice) demo_course) ?w = Inl DoesNotExist"
    by (rule priv_read_disabled) (simp add: demo_env_def)
  have c: "create ?en alice demo_course ?w =
             (Inr (ZeroCourseGrade alice (CourseData (Some alice) demo_course)), ?w)"
    using create_miss [OF nr] by (simp add: demo_env_def)
  show ?thesis
    unfolding c
    by (simp add: added_same) (simp add: stored_def demo_row_def alice_def demo_course_def)
qed

text \<open>
  C2, amended: where persistence is enabled for the course and a grade is stored whose
  policy hash differs from the context's, \<^verbatim>\<open>create\<close> is \<^verbatim>\<open>_update\<close> with
  \<open>read_only\<close> false, which runs the calculator once; and when the calculator returns and
  the engagement gate is off or the grade is attempted, the store then holds a row for the
  learner with the context's current hash, written by the one upsert of the call.
\<close>

theorem create_stale_persists:
  assumes "should_persist_grades en (c_id c)"
    and "grades w (user_id u, c_id c) = Some pg"
    and "pg_grading_policy_hash pg \<noteq> c_grading_policy_hash c"
  shows "create en u c w = priv_update en u (CourseData (Some u) c) False w \<and>
         filter is_calculate (added w (snd (create en u c w))) = [Calculate u (c_id c)] \<and>
         (\<forall>b. compute en u (CourseData (Some u) c) = Inr b \<and>
               (\<not> write_only_if_engaged en \<or> b_attempted b) \<longrightarrow>
              (\<exists>row. grades (snd (create en u c w)) (user_id u, c_id c) = Some row \<and>
                     pg_grading_policy_hash row = c_grading_policy_hash c \<and>
                     filter is_upsert (added w (snd (create en u c w))) = [Upsert row]))"
proof -
  let ?cd = "CourseData (Some u) c"
  have c: "create en u c w = priv_update en u ?cd False w"
    using assms
    by (simp add: create_def Let_def priv_read_found CourseData_simps)
  have calc: "filter is_calculate (added w (snd (priv_update en u ?cd False w))) =
                [Calculate u (c_id c)]"
    by (simp add: priv_update_added CourseData_simps split: sum.splits)
  have up: "\<exists>row. grades (snd (priv_update en u ?cd False w)) (user_id u, c_id c) = Some row \<and>
                   pg_grading_policy_hash row = c_grading_policy_hash c \<and>
                   filter is_upsert (added w (snd (priv_update en u ?cd False w))) = [Upsert row]"
    if "compute en u ?cd = Inr b" and "\<not> write_only_if_engaged en \<or> b_attempted b" for b
    using that assms(1)
    by (simp add: priv_update_added priv_update_grades CourseData_simps pg_hash_new_row)
  show ?thesis
    unfolding c using calc up by blast
qed

theorem create_stale_persists_witness:
  "create (demo_env True False True) alice demo_course (stored (demo_row 1 ''old'')) =
     priv_update (demo_env True False True) alice (CourseData (Some alice) demo_course) False
       (stored (demo_row 1 ''old'')) \<and>
   (\<exists>row. grades (snd (create (demo_env True False True) alice demo_course
                         (stored (demo_row 1 ''old'')))) (user_id alice, c_id demo_course) =
            Some row \<and>
          pg_grading_policy_hash row = c_grading_policy_hash demo_course \<and>
          filter is_upsert
            (added (stored (demo_row 1 ''old''))
               (snd (create (demo_env True False True) alice demo_course
                       (stored (demo_row 1 ''old''))))) = [Upsert row])"
proof -
  let ?en = "demo_env True False True"
  let ?w = "stored (demo_row 1 ''old'')"
  have h1: "should_persist_grades ?en (c_id demo_course)"
    by (simp add: demo_env_def)
  have h2: "grades ?w (user_id alice, c_id demo_course) = Some (demo_row 1 ''old'')"
    by (simp add: stored_def demo_row_def alice_def demo_course_def)
  have h3: "pg_grading_policy_hash (demo_row 1 ''old'') \<noteq> c_grading_policy_hash demo_course"
    by (simp add: demo_row_def demo_course_def)
  have b: "compute ?en alice (CourseData (Some alice) demo_course) =
             Inr \<lparr>b_percent = 1, b_letter_grade = Some ''A'', b_passed = Passed_True,
                  b_attempted = True\<rparr> \<and>
           (\<not> write_only_if_engaged ?en \<or>
            b_attempted \<lparr>b_percent = 1, b_letter_grade = Some ''A'', b_passed = Passed_True,
                         b_attempted = True\<rparr>)"
    by (simp add: demo_env_def demo_compute_def alice_def)
  from create_stale_persists [OF h1 h2 h3] b show ?thesis
    by blast
qed

section \<open>First computation is not persisted\<close>

text \<open>
  C3, as stated, fails in its second half: a recomputation after a policy change is written
  only if the engagement gate lets it through. With the gate on and a recomputed grade that
  is not attempted, \<^verbatim>\<open>create\<close> runs the calculator and the store keeps the old row.
\<close>

theorem create_miss_not_persisted_counterexample:
  "grades (stored (demo_row 3 ''old'')) (user_id carol, c_id demo_course) = Some (demo_row 3 ''old'') \<and>
   pg_grading_policy_hash (demo_row 3 ''old'') \<noteq> c_grading_policy_hash demo_course \<and>
   filter is_calculate
     (trace (snd (create (demo_env True False True) carol demo_course (stored (demo_row 3 ''old''))))) =
     [Calculate carol ''demo''] \<and>
   filter is_upsert
     (trace (snd (create (demo_env True False True) carol demo_course (stored (demo_row 3 ''old''))))) = [] \<and>
   grades (snd (create (demo_env True False True) carol demo_course (stored (demo_row 3 ''old''))))
     (user_id carol, c_id demo_course) = Some (demo_row 3 ''old'')"
proof -
  let ?en = "demo_env True False True"
  let ?cd = "CourseData (Some carol) demo_course"
  let ?w = "stored (demo_row 3 ''old'')"
  have h1: "should_persist_grades ?en (course_key ?cd)"
    by (simp add: demo_env_def)
  have h2: "grades ?w (user_id carol, course_key ?cd) = Some (demo_row 3 ''old'')"
    by (simp add: stored_def demo_row_def carol_def demo_course_def CourseData_simps)
  have c: "create ?en carol demo_course ?w = priv_update ?en carol ?cd False ?w"
    by (simp add: create_def Let_def priv_read_found [OF h1 h2] CourseData_simps)
      (simp add: demo_row_def demo_course_def)
  have b: "compute ?en carol ?cd =
             Inr \<lparr>b_percent = 0, b_letter_grade = None, b_passed = Passed_False,
                  b_attempted = False\<rparr>"
    by (simp add: demo_env_def demo_compute_def carol_def)
  have g: "write_only_if_engaged ?en"
    by (simp add: demo_env_def)
  have t: "trace ?w = []"
    by (simp add: stored_def)
  show ?thesis
    unfolding c
    by (simp add: priv_update_Inr_trace [OF b] priv_update_Inr_grades [OF b] g t CourseData_simps)
      (simp add: stored_def demo_row_def carol_def demo_course_def)
qed

text \<open>
  C3, amended: where no grade is stored and assume-zero-if-absent is false,
  \<^verbatim>\<open>create\<close> is \<^verbatim>\<open>_update\<close> with \<open>read_only\<close> true: it runs the calculator
  once, makes no upsert and leaves the store as it was. Whereas where persistence is
  enabled, a grade is stored under another policy hash, the calculator returns and the
  engagement gate is off or the grade is attempted, \<^verbatim>\<open>create\<close> is \<^verbatim>\<open>_update\<close>
  with \<open>read_only\<close> false and its one upsert puts the recomputed row in the store.
\<close>

theorem create_miss_not_persisted:
  "(grades w (user_id u, c_id c) = None \<and> \<not> assume_zero_if_absent en (c_id c) \<longrightarrow>
      create en u c w = priv_update en u (CourseData (Some u) c) True w \<and>
      filter is_calculate (added w (snd (create en u c w))) = [Calculate u (c_id c)] \<and>
      filter is_upsert (added w (snd (create en u c w))) = [] \<and>
      grades (snd (create en u c w)) = grades w) \<and>
   (should_persist_grades en (c_id c) \<and> grades w (user_id u, c_id c) = Some pg \<and>
    pg_grading_policy_hash pg \<noteq> c_grading_policy_hash c \<and>
    compute en u (CourseData (Some u) c) = Inr b \<and>
    (\<not> write_only_if_engaged en \<or> b_attempted b) \<longrightarrow>
      create en u c w = priv_update en u (CourseData (Some u) c) False w \<and>
      filter is_upsert (added w (snd (create en u c w))) =
        [Upsert (new_row en (user_id u) (c_id c) (c_version c) (c_edited_on c)
                   (c_grading_policy_hash c) (b_percent b)
                   (letter_or_empty (b_letter_grade b)) (b_passed b))] \<and>
      grades (snd (create en u c w)) (user_id u, c_id c) =
        Some (new_row en (user_id u) (c_id c) (c_version c) (c_edited_on c)
                (c_grading_policy_hash c) (b_percent b)
                (letter_or_empty (b_letter_grade b)) (b_passed b)))"
proof (intro conjI impI)
  let ?cd = "CourseData (Some u) c"
  assume a: "grades w (user_id u, c_id c) = None \<and> \<not> assume_zero_if_absent en (c_id c)"
  then have nr: "priv_read en u ?cd w = Inl DoesNotExist"
    by (simp add: priv_read_absent CourseData_simps)
  show c: "create en u c w = priv_update en u ?cd True w"
    using create_miss [OF nr] a by simp
  show "filter is_calculate (added w (snd (create en u c w))) = [Calculate u (c_id c)]"
    unfolding c by (simp add: priv_update_added CourseData_simps split: sum.splits)
  show "filter is_upsert (added w (snd (create en u c w))) = []"
    unfolding c by (simp add: priv_update_added split: sum.splits)
  show "grades (snd (create en u c w)) = grades w"
    unfolding c by (simp add: priv_update_grades split: sum.splits)
next
  let ?cd = "CourseData (Some u) c"
  assume a: "should_persist_grades en (c_id c) \<and> grades w (user_id u, c_id c) = Some pg \<and>
    pg_grading_policy_hash pg \<noteq> c_grading_policy_hash c \<and>
    compute en u (CourseData (Some u) c) = Inr b \<and>
    (\<not> write_only_if_engaged en \<or> b_attempted b)"
  show c: "create en u c w = priv_update en u ?cd False w"
    using a by (simp add: create_def Let_def priv_read_found CourseData_simps)
  show "filter is_upsert (added w (snd (create en u c w))) =
        [Upsert (new_row en (user_id u) (c_id c) (c_version c) (c_edited_on c)
                   (c_grading_policy_hash c) (b_percent b)
                   (letter_or_empty (b_letter_grade b)) (b_passed b))]"
    unfolding c using a by (simp add: priv_update_added CourseData_simps)
  show "grades (snd (create en u c w)) (user_id u, c_id c) =
        Some (new_row en (user_id u) (c_id c) (c_version c) (c_edited_on c)
                (c_grading_policy_hash c) (b_percent b)
                (letter_or_empty (b_letter_grade b)) (b_passed b))"
    unfolding c using a by (simp add: priv_update_grades CourseData_simps)
qed

theorem create_miss_not_persisted_witness:
  "create (demo_env True False False) alice demo_course empty_world =
     priv_update (demo_env True False False) alice (CourseData (Some alice) demo_course) True
       empty_world \<and>
   filter is_upsert
     (added empty_world (snd (create (demo_env True False False) alice demo_course empty_world))) = [] \<and>
   grades (snd (create (demo_env True False False) alice demo_course empty_world)) =
     grades empty_world \<and>
   filter is_upsert
     (added (stored (demo_row 1 ''old''))
        (snd (create (demo_env True False False) alice demo_course (stored (demo_row 1 ''old''))))) =
     [Upsert (new_row (demo_env True False False) (user_id alice) (c_id demo_course)
                (c_version demo_course) (c_edited_on demo_course)
                (c_grading_policy_hash demo_course) 1 (letter_or_empty (Some ''A''))
                Passed_True)]"
proof -
  let ?en = "demo_env True False False"
  let ?b = "\<lparr>b_percent = 1, b_letter_grade = Some ''A'', b_passed = Passed_True,
             b_attempted = True\<rparr>"
  have m: "grades empty_world (user_id alice, c_id demo_course) = None \<and>
           \<not> assume_zero_if_absent ?en (c_id demo_course)"
    by (simp add: empty_world_def demo_env_def)
  have s: "should_persist_grades ?en (c_id demo_course) \<and>
           grades (stored (demo_row 1 ''old'')) (user_id alice, c_id demo_course) =
             Some (demo_row 1 ''old'') \<and>
           pg_grading_policy_hash (demo_row 1 ''old'') \<noteq> c_grading_policy_hash demo_course \<and>
           compute ?en alice (CourseData (Some alice) demo_course) = Inr ?b \<and>
           (\<not> write_only_if_engaged ?en \<or> b_attempted ?b)"
    by (simp add: demo_env_def stored_def demo_row_def alice_def demo_course_def
        demo_compute_def)
  have v: "b_percent ?b = 1" "b_letter_grade ?b = Some ''A''" "b_passed ?b = Passed_True"
    by simp_all
  from create_miss_not_persisted [of empty_world alice demo_course ?en] m
    create_miss_not_persisted [of "stored (demo_row 1 ''old'')" alice demo_course ?en
      "demo_row 1 ''old''" ?b] s
  show ?thesis
    unfolding v by blast
qed

section \<open>Notifications\<close>

lemma priv_update_notifications:
  assumes "compute en u cd = Inr b"
  shows "filter is_notification (added w (snd (priv_update en u cd ro w))) =
           GradeChanged u
             \<lparr>cg_user = u, cg_course_data = cd, percent = b_percent b,
              letter_grade = b_letter_grade b, passed = b_passed b,
              attempted = b_attempted b\<rparr>
             (course_key cd) (c_end (cd_course cd)) #
           (if b_passed b = Passed_True then [NowPassed u (course_key cd)] else [])"
  by (simp add: priv_update_added assms)

lemma priv_update_raises_silent:
  assumes "compute en u cd = Inl e"
  shows "filter is_notification (added w (snd (priv_update en u cd ro w))) = []"
  by (simp add: priv_update_added assms)

text \<open>
  C6, as stated, fails: the signals are sent after the calculator has returned, so a
  recomputation whose calculator raises sends nothing. This is so for \<^verbatim>\<open>update\<close>
  and for \<^verbatim>\<open>create\<close> when the store has no grade for the learner.
\<close>

theorem recompute_notifies_counterexample:
  "fst (update (demo_env True False False) bob demo_course empty_world) =
     Inl (CalculatorError ''boom'') \<and>
   filter is_notification
     (trace (snd (update (demo_env True False False) bob demo_course empty_world))) = [] \<and>
   grades empty_world (user_id bob, c_id demo_course) = None \<and>
   fst (create (demo_env True False False) bob demo_course empty_world) =
     Inl (CalculatorError ''boom'') \<and>
   filter is_calculate
     (trace (snd (create (demo_env True False False) bob demo_course empty_world))) =
     [Calculate bob ''demo''] \<and>
   filter is_notification
     (trace (snd (create (demo_env True False False) bob demo_course empty_world))) = []"
proof -
  let ?en = "demo_env True False False"
  let ?cd = "CourseData (Some bob) demo_course"
  have b: "compute ?en bob ?cd = Inl (CalculatorError ''boom'')"
    by (simp add: demo_env_def demo_compute_def bob_def)
  have m: "grades empty_world (user_id bob, course_key ?cd) = None"
    by (simp add: empty_world_def)
  have z: "\<not> assume_zero_if_absent ?en (c_id demo_course)"
    by (simp add: demo_env_def)
  have c: "create ?en bob demo_course empty_world = priv_update ?en bob ?cd True empty_world"
    using create_miss [OF priv_read_absent [OF m]] z by simp
  have k: "course_key ?cd = ''demo''"
    by (simp add: CourseData_simps demo_course_def)
  have t: "trace empty_world = []" "grades empty_world (user_id bob, c_id demo_course) = None"
    by (simp_all add: empty_world_def)
  show ?thesis
    unfolding c update_def priv_update_Inl [OF b]
    by (simp add: trace_emit k t)
qed

text \<open>
  C6, amended: on every recomputation whose calculator returns, the call returns the grade
  resolved from the calculator's breakdown and sends exactly the grade-changed signal, once,
  with that grade and the end date of the course, followed by the newly-passed signal
  exactly when the grade's \<open>passed\<close> is true. The recomputations are \<^verbatim>\<open>_update\<close>
  with either value of \<open>read_only\<close>, every \<^verbatim>\<open>update\<close> call, \<^verbatim>\<open>create\<close> on a
  miss (persistence disabled or no stored row, and assume-zero off) and \<^verbatim>\<open>create\<close> on a
  stale row (persistence enabled and a stored row with another policy hash).
\<close>

theorem recompute_notifies:
  assumes "compute en u (CourseData (Some u) c) = Inr b"
  shows
    "let g = \<lparr>cg_user = u, cg_course_data = CourseData (Some u) c, percent = b_percent b,
              letter_grade = b_letter_grade b, passed = b_passed b,
              attempted = b_attempted b\<rparr>;
         sent = GradeChanged u g (c_id c) (c_end c) #
                  (if passed g = Passed_True then [NowPassed u (c_id c)] else [])
     in (\<forall>ro. fst (priv_update en u (CourseData (Some u) c) ro w) = Inr g \<and>
              filter is_notification
                (added w (snd (priv_update en u (CourseData (Some u) c) ro w))) = sent) \<and>
        fst (update en u c w) = Inr g \<and>
        filter is_notification (added w (snd (update en u c w))) = sent \<and>
        ((\<not> should_persist_grades en (c_id c) \<or> grades w (user_id u, c_id c) = None) \<and>
         \<not> assume_zero_if_absent en (c_id c) \<longrightarrow>
           fst (create en u c w) = Inr g \<and>
           filter is_notification (added w (snd (create en u c w))) = sent) \<and>
        (\<forall>pg. should_persist_grades en (c_id c) \<and>
              grades w (user_id u, c_id c) = Some pg \<and>
              pg_grading_policy_hash pg \<noteq> c_grading_policy_hash c \<longrightarrow>
           fst (create en u c w) = Inr g \<and>
           filter is_notification (added w (snd (create en u c w))) = sent)"
proof -
  let ?cd = "CourseData (Some u) c"
  let ?g = "\<lparr>cg_user = u, cg_course_data = ?cd, percent = b_percent b,
              letter_grade = b_letter_grade b, passed = b_passed b,
              attempted = b_attempted b\<rparr>"
  let ?sent = "GradeChanged u ?g (c_id c) (c_end c) #
                  (if passed ?g = Passed_True then [NowPassed u (c_id c)] else [])"
  have pu: "fst (priv_update en u ?cd ro w) = Inr ?g \<and>
            filter is_notification (added w (snd (priv_update en u ?cd ro w))) = ?sent" for ro
    using priv_update_Inr_fst [OF assms, of ro w] priv_update_notifications [OF assms, of w ro]
    by (simp add: CourseData_simps)
  have miss: "fst (create en u c w) = Inr ?g \<and>
           filter is_notification (added w (snd (create en u c w))) = ?sent"
    if a: "(\<not> should_persist_grades en (c_id c) \<or> grades w (user_id u, c_id c) = None) \<and>
         \<not> assume_zero_if_absent en (c_id c)"
  proof -
    have nr: "priv_read en u ?cd w = Inl DoesNotExist"
      using a by (auto simp: priv_read_absent priv_read_disabled CourseData_simps)
    have "create en u c w = priv_update en u ?cd True w"
      using create_miss [OF nr] a by simp
    then show ?thesis using pu [of True] by simp
  qed
  have stale: "fst (create en u c w) = Inr ?g \<and>
           filter is_notification (added w (snd (create en u c w))) = ?sent"
    if a: "should_persist_grades en (c_id c) \<and> grades w (user_id u, c_id c) = Some pg \<and>
              pg_grading_policy_hash pg \<noteq> c_grading_policy_hash c" for pg
  proof -
    have "create en u c w = priv_update en u ?cd False w"
      using a by (simp add: create_def Let_def priv_read_found CourseData_simps)
    then show ?thesis using pu [of False] by simp
  qed
  have upd: "fst (update en u c w) = Inr ?g \<and>
        filter is_notification (added w (snd (update en u c w))) = ?sent"
    unfolding update_def by (rule pu)
  show ?thesis
    unfolding Let_def using pu miss stale upd by blast
qed

theorem recompute_notifies_witness:
  "filter is_notification
     (added empty_world (snd (update (demo_env True False False) alice demo_course empty_world))) =
   [GradeChanged alice
      \<lparr>cg_user = alice, cg_course_data = CourseData (Some alice) demo_course, percent = 1,
       letter_grade = Some ''A'', passed = Passed_True, attempted = True\<rparr>
      ''demo'' (Some 90),
    NowPassed alice ''demo''] \<and>
   filter is_notification
     (added empty_world (snd (create (demo_env True False False) alice demo_course empty_world))) =
   [GradeChanged alice
      \<lparr>cg_user = alice, cg_course_data = CourseData (Some alice) demo_course, percent = 1,
       letter_grade = Some ''A'', passed = Passed_True, attempted = True\<rparr>
      ''demo'' (Some 90),
    NowPassed alice ''demo''] \<and>
   filter is_notification
     (added (stored (demo_row 3 ''old''))
        (snd (create (demo_env True False False) carol demo_course (stored (demo_row 3 ''old''))))) =
   [GradeChanged carol
      \<lparr>cg_user = carol, cg_course_data = CourseData (Some carol) demo_course, percent = 0,
       letter_grade = None, passed = Passed_False, attempted = False\<rparr>
      ''demo'' (Some 90)]"
proof -
  let ?en = "demo_env True False False"
  let ?ba = "\<lparr>b_percent = 1, b_letter_grade = Some ''A'', b_passed = Passed_True,
                  b_attempted = True\<rparr>"
  let ?bc = "\<lparr>b_percent = 0, b_letter_grade = None, b_passed = Passed_False,
                  b_attempted = False\<rparr>"
  have ba: "compute ?en alice (CourseData (Some alice) demo_course) = Inr ?ba"
    by (simp add: demo_env_def demo_compute_def alice_def)
  have bc: "compute ?en carol (CourseData (Some carol) demo_course) = Inr ?bc"
    by (simp add: demo_env_def demo_compute_def carol_def)
  have m: "(\<not> should_persist_grades ?en (c_id demo_course) \<or>
            grades empty_world (user_id alice, c_id demo_course) = None) \<and>
           \<not> assume_zero_if_absent ?en (c_id demo_course)"
    by (simp add: empty_world_def demo_env_def)
  have s: "should_persist_grades ?en (c_id demo_course) \<and>
           grades (stored (demo_row 3 ''old'')) (user_id carol, c_id demo_course) =
             Some (demo_row 3 ''old'') \<and>
           pg_grading_policy_hash (demo_row 3 ''old'') \<noteq> c_grading_policy_hash demo_course"
    by (simp add: demo_env_def stored_def demo_row_def carol_def demo_course_def)
  have k: "c_id demo_course = ''demo''" "c_end demo_course = Some 90"
    by (simp_all add: demo_course_def)
  have u1: "filter is_notification
     (added empty_world (snd (update ?en alice demo_course empty_world))) =
     GradeChanged alice
      \<lparr>cg_user = alice, cg_course_data = CourseData (Some alice) demo_course,
       percent = b_percent ?ba, letter_grade = b_letter_grade ?ba, passed = b_passed ?ba,
       attempted = b_attempted ?ba\<rparr> (c_id demo_course) (c_end demo_course) #
     (if passed \<lparr>cg_user = alice, cg_course_data = CourseData (Some alice) demo_course,
       percent = b_percent ?ba, letter_grade = b_letter_grade ?ba, passed = b_passed ?ba,
       attempted = b_attempted ?ba\<rparr> = Passed_True
      then [NowPassed alice (c_id demo_course)] else [])"
    using recompute_notifies [OF ba, of empty_world, unfolded Let_def] by blast
  have c1: "filter is_notification
     (added empty_world (snd (create ?en alice demo_course empty_world))) =
     GradeChanged alice
      \<lparr>cg_user = alice, cg_course_data = CourseData (Some alice) demo_course,
       percent = b_percent ?ba, letter_grade = b_letter_grade ?ba, passed = b_passed ?ba,
       attempted = b_attempted ?ba\<rparr> (c_id demo_course) (c_end demo_course) #
     (if passed \<lparr>cg_user = alice, cg_course_data = CourseData (Some alice) demo_course,
       percent = b_percent ?ba, letter_grade = b_letter_grade ?ba, passed = b_passed ?ba,
       attempted = b_attempted ?ba\<rparr> = Passed_True
      then [NowPassed alice (c_id demo_course)] else [])"
    using recompute_notifies [OF ba, of empty_world, unfolded Let_def] m by blast
  have c2: "filter is_notification
     (added (stored (demo_row 3 ''old''))
        (snd (create ?en carol demo_course (stored (demo_row 3 ''old''))))) =
     GradeChanged carol
      \<lparr>cg_user = carol, cg_course_data = CourseData (Some carol) demo_course,
       percent = b_percent ?bc, letter_grade = b_letter_grade ?bc, passed = b_passed ?bc,
       attempted = b_attempted ?bc\<rparr> (c_id demo_course) (c_end demo_course) #
     (if passed \<lparr>cg_user = carol, cg_course_data = CourseData (Some carol) demo_course,
       percent = b_percent ?bc, letter_grade = b_letter_grade ?bc, passed = b_passed ?bc,
       attempted = b_attempted ?bc\<rparr> = Passed_True
      then [NowPassed carol (c_id demo_course)] else [])"
    using recompute_notifies [OF bc, of "stored (demo_row 3 ''old'')", unfolded Let_def] s by blast
  show ?thesis
    unfolding u1 c1 c2 k by simp
qed

section \<open>The zero grade\<close>

text \<open>
  C7: where the store has no row for the learner in the course and assume-zero-if-absent is
  set, \<^verbatim>\<open>create\<close> and \<^verbatim>\<open>read\<close> both return the zero grade, whose percent is 0,
  whose \<open>passed\<close> is false and which is not attempted, and both return the world as it
  was, so nothing is written.
\<close>

theorem zero_grade_when_absent:
  assumes "grades w (user_id u, c_id c) = None"
    and "assume_zero_if_absent en (c_id c)"
  shows "create en u c w = (Inr (ZeroCourseGrade u (CourseData (Some u) c)), w) \<and>
         read en u c w = (Inr (Some (ZeroCourseGrade u (CourseData (Some u) c))), w) \<and>
         percent (ZeroCourseGrade u (CourseData (Some u) c)) = 0 \<and>
         passed (ZeroCourseGrade u (CourseData (Some u) c)) = Passed_False \<and>
         \<not> attempted (ZeroCourseGrade u (CourseData (Some u) c))"
proof -
  have nr: "priv_read en u (CourseData (Some u) c) w = Inl DoesNotExist"
    using assms(1) by (simp add: priv_read_absent CourseData_simps)
  show ?thesis
    using assms(2) by (simp add: create_miss [OF nr] read_miss [OF nr] ZeroCourseGrade_def)
qed

theorem zero_grade_when_absent_witness:
  "create (demo_env True True False) alice demo_course empty_world =
     (Inr (ZeroCourseGrade alice (CourseData (Some alice) demo_course)), empty_world) \<and>
   read (demo_env True True False) alice demo_course empty_world =
     (Inr (Some (ZeroCourseGrade alice (CourseData (Some alice) demo_course))), empty_world) \<and>
   percent (ZeroCourseGrade alice (CourseData (Some alice) demo_course)) = 0"
proof -
  have h1: "grades empty_world (user_id alice, c_id demo_course) = None"
    by (simp add: empty_world_def)
  have h2: "assume_zero_if_absent (demo_env True True False) (c_id demo_course)"
    by (simp add: demo_env_def)
  from zero_grade_when_absent [OF h1 h2] show ?thesis
    by blast
qed

section \<open>Courses without persistence\<close>

text \<open>
  C10: where persistence is disabled for the course, \<^verbatim>\<open>_read\<close> raises
  \<open>DoesNotExist\<close> whatever the store holds. So \<^verbatim>\<open>create\<close> never returns a stored
  grade: it returns the zero grade or recomputes with \<open>read_only\<close> true; and
  \<^verbatim>\<open>read\<close> returns the zero grade or nothing.
\<close>

theorem persistence_disabled_hides_store:
  assumes "\<not> should_persist_grades en (c_id c)"
  shows "priv_read en u (CourseData (Some u) c) w = Inl DoesNotExist \<and>
         create en u c w =
           (if assume_zero_if_absent en (c_id c)
            then (Inr (ZeroCourseGrade u (CourseData (Some u) c)), w)
            else priv_update en u (CourseData (Some u) c) True w) \<and>
         read en u c w =
           (if assume_zero_if_absent en (c_id c)
            then (Inr (Some (ZeroCourseGrade u (CourseData (Some u) c))), w)
            else (Inr None, w))"
proof -
  have nr: "priv_read en u (CourseData (Some u) c) w = Inl DoesNotExist"
    using assms by (simp add: priv_read_disabled CourseData_simps)
  show ?thesis
    using nr create_miss [OF nr] read_miss [OF nr] by simp
qed

theorem persistence_disabled_hides_store_witness:
  "grades (stored (demo_row 1 ''new'')) (user_id alice, c_id demo_course) = Some (demo_row 1 ''new'') \<and>
   priv_read (demo_env False False False) alice (CourseData (Some alice) demo_course)
     (stored (demo_row 1 ''new'')) = Inl DoesNotExist \<and>
   read (demo_env False False False) alice demo_course (stored (demo_row 1 ''new'')) =
     (Inr None, stored (demo_row 1 ''new'')) \<and>
   create (demo_env False False False) alice demo_course (stored (demo_row 1 ''new'')) =
     priv_update (demo_env False False False) alice (CourseData (Some alice) demo_course) True
       (stored (demo_row 1 ''new''))"
proof -
  have h: "\<not> should_persist_grades (demo_env False False False) (c_id demo_course)"
    by (simp add: demo_env_def)
  have z: "\<not> assume_zero_if_absent (demo_env False False False) (c_id demo_course)"
    by (simp add: demo_env_def)
  have s: "grades (stored (demo_row 1 ''new'')) (user_id alice, c_id demo_course) =
             Some (demo_row 1 ''new'')"
    by (simp add: stored_def demo_row_def alice_def demo_course_def)
  from persistence_disabled_hides_store [OF h, of alice "stored (demo_row 1 ''new'')"] z s
  show ?thesis
    by simp
qed

section \<open>Updating twice\<close>

lemma added_trans:
  "trace w1 = trace w @ xs \<Longrightarrow> trace w2 = trace w1 @ ys \<Longrightarrow> added w w2 = xs @ ys"
  by (simp add: added_def)

lemma update_twice_added:
  "added w (snd (update en u c (snd (update en u c w)))) =
     added w (snd (update en u c w)) @
     added (snd (update en u c w)) (snd (update en u c (snd (update en u c w))))"
  unfolding update_def
  by (rule added_trans) (rule priv_update_trace_extends)+

lemma update_added_calculate:
  "filter is_calculate (added w (snd (update en u c w))) = [Calculate u (c_id c)]"
  unfolding update_def
  by (cases "compute en u (CourseData (Some u) c)")
    (simp_all add: priv_update_added CourseData_simps)

lemma update_added_upserts:
  "length (filter is_upsert (added w (snd (update en u c w)))) =
     (case compute en u (CourseData (Some u) c) of
        Inl e \<Rightarrow> 0
      | Inr b \<Rightarrow>
          if should_persist_grades en (c_id c) \<and>
             (\<not> write_only_if_engaged en \<or> b_attempted b)
          then 1 else 0)"
  unfolding update_def
  by (cases "compute en u (CourseData (Some u) c)")
    (simp_all add: priv_update_added CourseData_simps)

text \<open>
  C8, as stated, fails in its count of writes: \<^verbatim>\<open>update\<close> writes only when
  persistence is enabled for the course and the engagement gate lets the grade through.
  With persistence disabled, two calls in a row resolve the same grade and make no upsert.
\<close>

theorem update_twice_counterexample:
  "fst (update (demo_env False False False) alice demo_course empty_world) =
     Inr \<lparr>cg_user = alice, cg_course_data = CourseData (Some alice) demo_course, percent = 1,
          letter_grade = Some ''A'', passed = Passed_True, attempted = True\<rparr> \<and>
   fst (update (demo_env False False False) alice demo_course
          (snd (update (demo_env False False False) alice demo_course empty_world))) =
     Inr \<lparr>cg_user = alice, cg_course_data = CourseData (Some alice) demo_course, percent = 1,
          letter_grade = Some ''A'', passed = Passed_True, attempted = True\<rparr> \<and>
   filter is_upsert
     (trace (snd (update (demo_env False False False) alice demo_course
                    (snd (update (demo_env False False False) alice demo_course empty_world))))) = []"
proof -
  let ?en = "demo_env False False False"
  let ?cd = "CourseData (Some alice) demo_course"
  have b: "compute ?en alice ?cd =
             Inr \<lparr>b_percent = 1, b_letter_grade = Some ''A'', b_passed = Passed_True,
                  b_attempted = True\<rparr>"
    by (simp add: demo_env_def demo_compute_def alice_def)
  have p: "\<not> should_persist_grades ?en (course_key ?cd)"
    by (simp add: demo_env_def)
  have t: "trace empty_world = []"
    by (simp add: empty_world_def)
  show ?thesis
    unfolding update_def
    by (simp add: priv_update_Inr_fst [OF b] priv_update_Inr_trace [OF b] p t)
qed

text \<open>
  C8, amended: \<^verbatim>\<open>update\<close> runs the calculator on every call, whatever the store
  holds; two calls in a row under the same configuration and calculator give the same
  result (the same grade, or the same error), and together they make two upserts when the
  calculator returns, persistence is enabled for the course and the engagement gate is off
  or the grade is attempted, and no upsert otherwise.
\<close>

theorem update_twice:
  assumes "update en u c w = (r1, w1)" and "update en u c w1 = (r2, w2)"
  shows "r2 = r1 \<and>
         filter is_calculate (added w w2) = [Calculate u (c_id c), Calculate u (c_id c)] \<and>
         length (filter is_upsert (added w w2)) =
           (case compute en u (CourseData (Some u) c) of
              Inl e \<Rightarrow> 0
            | Inr b \<Rightarrow>
                if should_persist_grades en (c_id c) \<and>
                   (\<not> write_only_if_engaged en \<or> b_attempted b)
                then 2 else 0)"
proof -
  have w1: "w1 = snd (update en u c w)" and r1: "r1 = fst (update en u c w)"
    using assms(1) by simp_all
  have w2: "w2 = snd (update en u c w1)" and r2: "r2 = fst (update en u c w1)"
    using assms(2) by simp_all
  have same: "r2 = r1"
    unfolding r1 r2 update_def by (rule priv_update_fst_indep)
  have split: "added w w2 = added w w1 @ added w1 w2"
    unfolding w2 w1 by (rule update_twice_added)
  have calc: "filter is_calculate (added w w2) = [Calculate u (c_id c), Calculate u (c_id c)]"
    unfolding split filter_append unfolding w2 update_added_calculate
    unfolding w1 update_added_calculate by simp
  have ups: "length (filter is_upsert (added w w2)) =
           (case compute en u (CourseData (Some u) c) of
              Inl e \<Rightarrow> 0
            | Inr b \<Rightarrow>
                if should_persist_grades en (c_id c) \<and>
                   (\<not> write_only_if_engaged en \<or> b_attempted b)
                then 2 else 0)"
    unfolding split filter_append length_append unfolding w2 update_added_upserts
    unfolding w1 update_added_upserts
    by (cases "compute en u (CourseData (Some u) c)") simp_all
  show ?thesis
    using same calc ups by blast
qed

theorem update_twice_witness:
  "length (filter is_upsert
     (added empty_world
        (snd (update (demo_env True False False) alice demo_course
                (snd (update (demo_env True False False) alice demo_course empty_world)))))) = 2 \<and>
   fst (update (demo_env True False False) alice demo_course
          (snd (update (demo_env True False False) alice demo_course empty_world))) =
   fst (update (demo_env True False False) alice demo_course empty_world)"
proof -
  let ?en = "demo_env True False False"
  let ?cd = "CourseData (Some alice) demo_course"
  let ?w1 = "snd (update ?en alice demo_course empty_world)"
  let ?w2 = "snd (update ?en alice demo_course ?w1)"
  have b: "compute ?en alice ?cd =
             Inr \<lparr>b_percent = 1, b_letter_grade = Some ''A'', b_passed = Passed_True,
                  b_attempted = True\<rparr>"
    by (simp add: demo_env_def demo_compute_def alice_def)
  have p: "should_persist_grades ?en (c_id demo_course)" "\<not> write_only_if_engaged ?en"
    by (simp_all add: demo_env_def)
  have a1: "update ?en alice demo_course empty_world =
              (fst (update ?en alice demo_course empty_world), ?w1)"
    by simp
  have a2: "update ?en alice demo_course ?w1 = (fst (update ?en alice demo_course ?w1), ?w2)"
    by simp
  from update_twice [OF a1 a2] show ?thesis
    by (simp add: b p)
qed

section \<open>Batch iteration: one learner\<close>

lemma priv_update_no_clear_cache:
  "filter is_clear_cache (added w (snd (priv_update en u cd ro w))) = []"
  by (cases "compute en u cd") (simp_all add: priv_update_added)

lemma priv_update_fst_Inl:
  "fst (priv_update en u cd ro w) = Inl e \<longleftrightarrow> compute en u cd = Inl e"
  by (cases "compute en u cd") (simp_all add: priv_update_Inl priv_update_Inr_fst)


text \<open>The entry point that \<^verbatim>\<open>_iter_grade_result\<close> calls, \<^verbatim>\<open>update\<close> or \<^verbatim>\<open>create\<close>.\<close>

lemma entry_cases:
  "(\<exists>g. (if fu then update else create) en u c w = (Inr g, w)) \<or>
   (\<exists>ro. (if fu then update else create) en u c w =
           priv_update en u (CourseData (Some u) c) ro w)"
proof (cases fu)
  case True
  then show ?thesis by (auto simp: update_def)
next
  case False
  then show ?thesis using create_cases [of en u c w] by simp
qed

lemma entry_trace:
  "\<exists>xs. trace (snd ((if fu then update else create) en u c w)) = trace w @ xs \<and>
        filter is_clear_cache xs = []"
  using entry_cases [of fu en u c w]
proof
  assume "\<exists>g. (if fu then update else create) en u c w = (Inr g, w)"
  then show ?thesis by auto
next
  assume "\<exists>ro. (if fu then update else create) en u c w =
           priv_update en u (CourseData (Some u) c) ro w"
  then obtain ro where c: "(if fu then update else create) en u c w =
           priv_update en u (CourseData (Some u) c) ro w" ..
  show ?thesis
    unfolding c
    using priv_update_trace_extends [of en u "CourseData (Some u) c" ro w]
      priv_update_no_clear_cache [of w en u "CourseData (Some u) c" ro]
    by blast
qed


lemma entry_Inl:
  assumes "fst ((if fu then update else create) en u c w) = Inl e"
  shows "compute en u (CourseData (Some u) c) = Inl e"
  using entry_cases [of fu en u c w]
proof
  assume "\<exists>g. (if fu then update else create) en u c w = (Inr g, w)"
  with assms show ?thesis by auto
next
  assume "\<exists>ro. (if fu then update else create) en u c w =
           priv_update en u (CourseData (Some u) c) ro w"
  with assms show ?thesis by (auto simp: priv_update_fst_Inl)
qed

text \<open>
  When the entry point runs the calculator: always for \<^verbatim>\<open>update\<close>; for
  \<^verbatim>\<open>create\<close> when nothing can be read and assume-zero is off, or when what is read
  was computed under another policy.
\<close>

lemma entry_recomputes:
  assumes "fu \<or>
           (\<not> assume_zero_if_absent en (c_id c) \<and>
            (\<not> should_persist_grades en (c_id c) \<or> grades w (user_id u, c_id c) = None)) \<or>
           (should_persist_grades en (c_id c) \<and>
            (\<exists>pg. grades w (user_id u, c_id c) = Some pg \<and>
                  pg_grading_policy_hash pg \<noteq> c_grading_policy_hash c))"
  shows "fst ((if fu then update else create) en u c w) =
           fst (priv_update en u (CourseData (Some u) c) False w)"
proof (cases fu)
  case True
  then show ?thesis by (simp add: update_def)
next
  case False
  let ?cd = "CourseData (Some u) c"
  have "\<exists>ro. create en u c w = priv_update en u ?cd ro w"
  proof (cases "\<not> assume_zero_if_absent en (c_id c) \<and>
            (\<not> should_persist_grades en (c_id c) \<or> grades w (user_id u, c_id c) = None)")
    case True
    then have nr: "priv_read en u ?cd w = Inl DoesNotExist"
      by (auto simp: priv_read_absent priv_read_disabled CourseData_simps)
    show ?thesis
      using create_miss [OF nr] True by auto
  next
    case no_miss: False
    with assms False obtain pg where
      "should_persist_grades en (c_id c)"
      "grades w (user_id u, c_id c) = Some pg"
      "pg_grading_policy_hash pg \<noteq> c_grading_policy_hash c"
      by auto
    then have "create en u c w = priv_update en u ?cd False w"
      by (simp add: create_def Let_def priv_read_found CourseData_simps)
    then show ?thesis by blast
  qed
  then obtain ro where "create en u c w = priv_update en u ?cd ro w" ..
  then show ?thesis
    using False priv_update_fst_indep [of en u ?cd ro w False w] by simp
qed

lemma priv_iter_grade_result_cases:
  "priv_iter_grade_result en u cd fu w =
     (case fst ((if fu then update else create) en u (cd_course cd) w) of
        Inr g \<Rightarrow> Inr (GradeResult u (Some g) None)
      | Inl exc \<Rightarrow>
          if is_Exception exc then Inr (GradeResult u None (Some exc)) else Inl exc,
      snd ((if fu then update else create) en u (cd_course cd) w))"
  by (simp add: priv_iter_grade_result_def split: prod.splits sum.splits)

lemma priv_iter_grade_result_trace:
  "\<exists>xs. trace (snd (priv_iter_grade_result en u cd fu w)) = trace w @ xs \<and>
        filter is_clear_cache xs = []"
  using entry_trace [of fu en u "cd_course cd" w]
  by (simp add: priv_iter_grade_result_cases)



lemma priv_iter_grade_result_one:
  "fst (priv_iter_grade_result en u cd fu w) = Inr r \<Longrightarrow>
   (gr_course_grade r \<noteq> None \<and> gr_error r = None) \<or>
   (gr_course_grade r = None \<and> gr_error r \<noteq> None)"
  by (auto simp: priv_iter_grade_result_cases GradeResult_def split: sum.splits if_splits)

lemma priv_iter_grade_result_returns:
  assumes "\<forall>e. compute en u (CourseData (Some u) (cd_course cd)) = Inl e \<longrightarrow> is_Exception e"
  shows "\<exists>r. fst (priv_iter_grade_result en u cd fu w) = Inr r"
proof (cases "fst ((if fu then update else create) en u (cd_course cd) w)")
  case (Inl e)
  from entry_Inl [OF Inl] assms have "is_Exception e" by blast
  with Inl show ?thesis by (simp add: priv_iter_grade_result_cases)
next
  case (Inr g)
  then show ?thesis by (simp add: priv_iter_grade_result_cases)
qed



lemma priv_iter_grade_result_raises:
  assumes "compute en u (CourseData (Some u) (cd_course cd)) = Inl e"
    and "fu \<or>
           (\<not> assume_zero_if_absent en (c_id (cd_course cd)) \<and>
            (\<not> should_persist_grades en (c_id (cd_course cd)) \<or>
             grades w (user_id u, c_id (cd_course cd)) = None)) \<or>
           (should_persist_grades en (c_id (cd_course cd)) \<and>
            (\<exists>pg. grades w (user_id u, c_id (cd_course cd)) = Some pg \<and>
                  pg_grading_policy_hash pg \<noteq> c_grading_policy_hash (cd_course cd)))"
  shows "fst (priv_iter_grade_result en u cd fu w) =
           (if is_Exception e then Inr (GradeResult u None (Some e)) else Inl e)"
proof -
  have "fst ((if fu then update else create) en u (cd_course cd) w) = Inl e"
    using entry_recomputes [OF assms(2)] assms(1)
    by (simp add: priv_update_fst_Inl)
  then show ?thesis by (simp add: priv_iter_grade_result_cases)
qed

section \<open>Batch iteration: the whole sequence\<close>

lemma drain_AtYield_Nil:
  "drain en (AtYield cd [] fu) w = (([], None), clear_cache (course_key cd) w)"
  by (subst drain.simps) (simp add: priv_course_transaction_exit_def)

lemma drain_AtYield_Cons_Inr:
  assumes "fst (priv_iter_grade_result en u cd fu w) = Inr r"
  shows "drain en (AtYield cd (u # us) fu) w =
     ((r # fst (fst (drain en (AtYield cd us fu) (snd (priv_iter_grade_result en u cd fu w)))),
       snd (fst (drain en (AtYield cd us fu) (snd (priv_iter_grade_result en u cd fu w))))),
      snd (drain en (AtYield cd us fu) (snd (priv_iter_grade_result en u cd fu w))))"
proof -
  from assms obtain w1 where p: "priv_iter_grade_result en u cd fu w = (Inr r, w1)"
    by (cases "priv_iter_grade_result en u cd fu w") auto
  show ?thesis
    by (subst drain.simps) (simp add: p split: prod.splits)
qed

lemma drain_AtYield_Cons_Inl:
  assumes "fst (priv_iter_grade_result en u cd fu w) = Inl e"
  shows "drain en (AtYield cd (u # us) fu) w =
           (([], Some e), snd (priv_iter_grade_result en u cd fu w))"
proof -
  from assms obtain w1 where p: "priv_iter_grade_result en u cd fu w = (Inl e, w1)"
    by (cases "priv_iter_grade_result en u cd fu w") auto
  show ?thesis
    by (subst drain.simps) (simp add: p priv_course_transaction_exit_def)
qed

lemma drain_iter: "drain en (iter users c fu) w = drain en (AtYield (CourseData None c) users fu) w"
  unfolding iter_def
  by (subst drain.simps, subst (2) drain.simps) simp

lemma take_results_AtYield_Nil:
  "take_results (Suc n) en (AtYield cd [] fu) w = (([], Finished), clear_cache (course_key cd) w)"
  by (simp add: priv_course_transaction_exit_def)

lemma take_results_AtYield_Cons_Inr:
  assumes "fst (priv_iter_grade_result en u cd fu w) = Inr r"
  shows "take_results (Suc n) en (AtYield cd (u # us) fu) w =
     ((r # fst (fst (take_results n en (AtYield cd us fu)
                       (snd (priv_iter_grade_result en u cd fu w)))),
       snd (fst (take_results n en (AtYield cd us fu)
                   (snd (priv_iter_grade_result en u cd fu w))))),
      snd (take_results n en (AtYield cd us fu) (snd (priv_iter_grade_result en u cd fu w))))"
proof -
  from assms obtain w1 where p: "priv_iter_grade_result en u cd fu w = (Inr r, w1)"
    by (cases "priv_iter_grade_result en u cd fu w") auto
  show ?thesis
    by (simp add: p split: prod.splits)
qed

lemma take_results_AtYield_Cons_Inl:
  assumes "fst (priv_iter_grade_result en u cd fu w) = Inl e"
  shows "take_results (Suc n) en (AtYield cd (u # us) fu) w =
           (([], Finished), snd (priv_iter_grade_result en u cd fu w))"
proof -
  from assms obtain w1 where p: "priv_iter_grade_result en u cd fu w = (Inl e, w1)"
    by (cases "priv_iter_grade_result en u cd fu w") auto
  show ?thesis
    by (simp add: p priv_course_transaction_exit_def)
qed

lemma take_results_iter_world:
  "snd (take_results k en (iter users c fu) w) =
   snd (take_results k en (AtYield (CourseData None c) users fu) w)"
  by (cases k) (simp_all add: iter_def)

lemma take_results_iter_results:
  "fst (fst (take_results k en (iter users c fu) w)) =
   fst (fst (take_results k en (AtYield (CourseData None c) users fu) w))"
  by (cases k) (simp_all add: iter_def)







section \<open>Shape of a result\<close>

lemma iter_next_Yielded:
  assumes "iter_next en g w = ((Yielded r, g'), w')"
  shows "\<exists>u cd fu. priv_iter_grade_result en u cd fu w = (Inr r, w')"
proof (cases g)
  case (Unstarted users c fu)
  with assms show ?thesis
    by (cases users) (auto split: prod.splits sum.splits intro: exI)
next
  case (AtYield cd users fu)
  with assms show ?thesis
    by (cases users) (auto split: prod.splits sum.splits intro: exI)
next
  case Finished
  with assms show ?thesis by simp
qed

text \<open>
  C9: every result that \<^verbatim>\<open>iter\<close> yields, however many of them the consumer takes,
  has exactly one of its grade and its error set: a grade and no error, or an error and no
  grade.
\<close>

theorem result_has_grade_or_error:
  assumes "r \<in> set (fst (fst (take_results n en (iter users c fu) w)))"
  shows "(gr_course_grade r \<noteq> None \<and> gr_error r = None) \<or>
         (gr_course_grade r = None \<and> gr_error r \<noteq> None)"
proof -
  have "r \<in> set (fst (fst (take_results n en g w))) \<Longrightarrow>
        (gr_course_grade r \<noteq> None \<and> gr_error r = None) \<or>
        (gr_course_grade r = None \<and> gr_error r \<noteq> None)" for g
  proof (induction n arbitrary: g w)
    case 0
    then show ?case by simp
  next
    case (Suc n)
    obtain nr g' w' where s: "iter_next en g w = ((nr, g'), w')"
      by (metis prod.collapse)
    show ?case
    proof (cases nr)
      case (Yielded r0)
      from iter_next_Yielded [OF s [unfolded Yielded]] obtain u cd fu' where
        r0: "fst (priv_iter_grade_result en u cd fu' w) = Inr r0"
        by (metis fst_conv)
      from Suc.prems s Yielded
      have "r = r0 \<or> r \<in> set (fst (fst (take_results n en g' w')))"
        by (auto split: prod.splits)
      then show ?thesis
      proof
        assume "r = r0"
        then show ?thesis
          using priv_iter_grade_result_one [OF r0] by simp
      next
        assume "r \<in> set (fst (fst (take_results n en g' w')))"
        then show ?thesis by (rule Suc.IH)
      qed
    next
      case StopIteration
      with Suc.prems s show ?thesis by simp
    next
      case (Raised e)
      with Suc.prems s show ?thesis by simp
    qed
  qed
  from this [OF assms] show ?thesis .
qed

theorem result_has_grade_or_error_witness:
  "GradeResult bob None (Some (CalculatorError ''boom'')) \<in>
     set (fst (fst (take_results 2 (demo_env True False False)
                      (iter [alice, bob] demo_course True) empty_world))) \<and>
   ((gr_course_grade (GradeResult bob None (Some (CalculatorError ''boom''))) \<noteq> None \<and>
     gr_error (GradeResult bob None (Some (CalculatorError ''boom''))) = None) \<or>
    (gr_course_grade (GradeResult bob None (Some (CalculatorError ''boom''))) = None \<and>
     gr_error (GradeResult bob None (Some (CalculatorError ''boom''))) \<noteq> None))"
proof -
  let ?en = "demo_env True False False"
  let ?cd = "CourseData None demo_course"
  let ?w1 = "snd (priv_iter_grade_result ?en alice ?cd True empty_world)"
  have ca: "\<forall>e. compute ?en alice (CourseData (Some alice) (cd_course ?cd)) = Inl e \<longrightarrow>
              is_Exception e"
    by (simp add: demo_env_def demo_compute_def alice_def)
  from priv_iter_grade_result_returns [OF ca, of True empty_world] obtain ra where
    ra: "fst (priv_iter_grade_result ?en alice ?cd True empty_world) = Inr ra" ..
  have cb: "compute ?en bob (CourseData (Some bob) (cd_course ?cd)) = Inl (CalculatorError ''boom'')"
    by (simp add: demo_env_def demo_compute_def bob_def)
  have rb: "fst (priv_iter_grade_result ?en bob ?cd True ?w1) =
              Inr (GradeResult bob None (Some (CalculatorError ''boom'')))"
    using priv_iter_grade_result_raises [OF cb, of True ?w1] by simp
  have two: "(2::nat) = Suc (Suc 0)"
    by simp
  have "fst (fst (take_results 2 ?en (iter [alice, bob] demo_course True) empty_world)) =
          [ra, GradeResult bob None (Some (CalculatorError ''boom''))]"
    unfolding two take_results_iter_results
      take_results_AtYield_Cons_Inr [OF ra] take_results_AtYield_Cons_Inr [OF rb]
    by simp
  then have m: "GradeResult bob None (Some (CalculatorError ''boom'')) \<in>
     set (fst (fst (take_results 2 ?en (iter [alice, bob] demo_course True) empty_world)))"
    by simp
  from m result_has_grade_or_error [OF m] show ?thesis
    by blast
qed

section \<open>Clearing the cache of the course\<close>

lemma iter_close_world: "snd (iter_close g w) = w"
  by (cases g) (simp_all add: priv_course_transaction_exit_def)

lemma take_and_close_eq:
  "take_and_close n en g w =
     (fst (fst (take_results n en g w)), snd (take_results n en g w))"
  by (simp add: take_and_close_def iter_close_world split: prod.splits)

lemma take_results_no_clear_cache:
  "n \<le> length us \<Longrightarrow>
   \<exists>xs. trace (snd (take_results n en (AtYield cd us fu) w)) = trace w @ xs \<and>
        filter is_clear_cache xs = []"
proof (induction n arbitrary: us w)
  case 0
  then show ?case by simp
next
  case (Suc n)
  then obtain u us' where us: "us = u # us'" and n: "n \<le> length us'"
    by (cases us) auto
  let ?w1 = "snd (priv_iter_grade_result en u cd fu w)"
  from priv_iter_grade_result_trace [of en u cd fu w] obtain ys where
    tr1: "trace ?w1 = trace w @ ys" and nc1: "filter is_clear_cache ys = []"
    by blast
  show ?case
  proof (cases "fst (priv_iter_grade_result en u cd fu w)")
    case (Inl e)
    show ?thesis
      unfolding us take_results_AtYield_Cons_Inl [OF Inl] using tr1 nc1 by simp
  next
    case (Inr r)
    from Suc.IH [OF n, of ?w1] obtain xs where
      tr: "trace (snd (take_results n en (AtYield cd us' fu) ?w1)) = trace ?w1 @ xs" and
      nc: "filter is_clear_cache xs = []"
      by blast
    have "trace (snd (take_results (Suc n) en (AtYield cd us fu) w)) = trace w @ (ys @ xs)"
      unfolding us take_results_AtYield_Cons_Inr [OF Inr] using tr tr1 by simp
    moreover have "filter is_clear_cache (ys @ xs) = []"
      using nc nc1 by simp
    ultimately show ?thesis by blast
  qed
qed

lemma take_results_length_le:
  "length (fst (fst (take_results n en (AtYield cd us fu) w))) \<le> n"
proof (induction n arbitrary: us w)
  case 0
  then show ?case by simp
next
  case (Suc n)
  show ?case
  proof (cases us)
    case Nil
    then show ?thesis by (simp add: take_results_AtYield_Nil)
  next
    case (Cons u us')
    show ?thesis
    proof (cases "fst (priv_iter_grade_result en u cd fu w)")
      case (Inl e)
      show ?thesis
        unfolding Cons take_results_AtYield_Cons_Inl [OF Inl] by simp
    next
      case (Inr r)
      show ?thesis
        unfolding Cons take_results_AtYield_Cons_Inr [OF Inr]
        using Suc.IH [of us' "snd (priv_iter_grade_result en u cd fu w)"] by simp
    qed
  qed
qed

lemma take_results_length:
  "n \<le> length us \<Longrightarrow>
   \<forall>u\<in>set (take n us). \<forall>e. compute en u (CourseData (Some u) (cd_course cd)) = Inl e \<longrightarrow>
      is_Exception e \<Longrightarrow>
   length (fst (fst (take_results n en (AtYield cd us fu) w))) = n"
proof (induction n arbitrary: us w)
  case 0
  then show ?case by simp
next
  case (Suc n)
  then obtain u us' where us: "us = u # us'" and n: "n \<le> length us'"
    by (cases us) auto
  from Suc.prems(2) us
  have hu: "\<forall>e. compute en u (CourseData (Some u) (cd_course cd)) = Inl e \<longrightarrow> is_Exception e"
    and hs: "\<forall>u\<in>set (take n us'). \<forall>e. compute en u (CourseData (Some u) (cd_course cd)) = Inl e \<longrightarrow>
      is_Exception e"
    by simp_all
  from priv_iter_grade_result_returns [OF hu, of fu w] obtain r where
    r: "fst (priv_iter_grade_result en u cd fu w) = Inr r" ..
  show ?case
    unfolding us take_results_AtYield_Cons_Inr [OF r]
    using Suc.IH [OF n hs, of "snd (priv_iter_grade_result en u cd fu w)"] by simp
qed

text \<open>Run to its end, the generator clears the cache once, last, unless it raised.\<close>

lemma drain_clears_cache_once:
  "\<exists>xs. trace (snd (drain en (iter users c fu) w)) =
          trace w @ xs @
            (if snd (fst (drain en (iter users c fu) w)) = None then [ClearCache (c_id c)]
             else []) \<and>
        filter is_clear_cache xs = []"
proof -
  have "\<exists>xs. trace (snd (drain en (AtYield cd us fu) w)) =
               trace w @ xs @
                 (if snd (fst (drain en (AtYield cd us fu) w)) = None
                  then [ClearCache (course_key cd)] else []) \<and>
             filter is_clear_cache xs = []" for cd us
  proof (induction us arbitrary: w)
    case Nil
    show ?case
      by (simp add: drain_AtYield_Nil clear_cache_def trace_emit)
  next
    case (Cons u us)
    let ?w1 = "snd (priv_iter_grade_result en u cd fu w)"
    from priv_iter_grade_result_trace [of en u cd fu w] obtain ys where
      tr1: "trace ?w1 = trace w @ ys" and nc1: "filter is_clear_cache ys = []"
      by blast
    show ?case
    proof (cases "fst (priv_iter_grade_result en u cd fu w)")
      case (Inl e)
      show ?thesis
        unfolding drain_AtYield_Cons_Inl [OF Inl] using tr1 nc1 by simp
    next
      case (Inr r)
      from Cons.IH [of ?w1] obtain xs where
        tr: "trace (snd (drain en (AtYield cd us fu) ?w1)) =
               trace ?w1 @ xs @
                 (if snd (fst (drain en (AtYield cd us fu) ?w1)) = None
                  then [ClearCache (course_key cd)] else [])" and
        nc: "filter is_clear_cache xs = []"
        by blast
      have "trace (snd (drain en (AtYield cd (u # us) fu) w)) =
              trace w @ (ys @ xs) @
                (if snd (fst (drain en (AtYield cd (u # us) fu) w)) = None
                 then [ClearCache (course_key cd)] else [])"
        unfolding drain_AtYield_Cons_Inr [OF Inr] using tr tr1 by simp
      moreover have "filter is_clear_cache (ys @ xs) = []"
        using nc nc1 by simp
      ultimately show ?thesis by blast
    qed
  qed
  from this [of "CourseData None c" users] show ?thesis
    unfolding drain_iter course_key_CourseData .
qed

text \<open>
  C4 asks that the cache of the course is cleared exactly once however the sequence is
  consumed. The code clears it only when the generator is run to its end without raising
  (\<open>drain_clears_cache_once\<close>: once, as the last effect). A consumer that asks for at
  least one and at most all of the results and then lets go of the generator leaves it
  parked at the \<^verbatim>\<open>yield\<close>, or ended by an exception; either way the
  \<^verbatim>\<open>with\<close> block is left through \<^verbatim>\<open>_course_transaction\<close>, which has no
  \<^verbatim>\<open>try\<close>/\<^verbatim>\<open>finally\<close>, and the cache is never cleared. The consumer has at
  most the results it asked for, and all of them when no calculation among the first \<open>n\<close>
  learners raises past the handler.
\<close>

theorem early_stop_skips_clear_cache:
  assumes "0 < n" and "n \<le> length users"
  shows "filter is_clear_cache (added w (snd (take_and_close n en (iter users c fu) w))) = [] \<and>
         length (fst (take_and_close n en (iter users c fu) w)) \<le> n \<and>
         ((\<forall>u\<in>set (take n users). \<forall>e.
              compute en u (CourseData (Some u) c) = Inl e \<longrightarrow> is_Exception e) \<longrightarrow>
          length (fst (take_and_close n en (iter users c fu) w)) = n)"
proof -
  let ?cd = "CourseData None c"
  have cc: "cd_course ?cd = c"
    by (simp add: CourseData_simps)
  from take_results_no_clear_cache [OF assms(2), of en ?cd fu w] obtain xs where
    tr: "trace (snd (take_results n en (AtYield ?cd users fu) w)) = trace w @ xs" and
    nc: "filter is_clear_cache xs = []"
    by blast
  have a: "filter is_clear_cache (added w (snd (take_and_close n en (iter users c fu) w))) = []"
    unfolding take_and_close_eq snd_conv take_results_iter_world
    using added_append [OF tr] nc by simp
  have b: "length (fst (take_and_close n en (iter users c fu) w)) \<le> n"
    unfolding take_and_close_eq fst_conv take_results_iter_results
    by (rule take_results_length_le)
  have c: "length (fst (take_and_close n en (iter users c fu) w)) = n"
    if "\<forall>u\<in>set (take n users). \<forall>e.
          compute en u (CourseData (Some u) c) = Inl e \<longrightarrow> is_Exception e"
    unfolding take_and_close_eq fst_conv take_results_iter_results
    by (rule take_results_length [OF assms(2)]) (use that in \<open>simp add: cc\<close>)
  show ?thesis
    using a b c by blast
qed

theorem early_stop_skips_clear_cache_witness:
  "filter is_clear_cache
     (added empty_world
        (snd (take_and_close 1 (demo_env True False False)
                (iter [alice, carol] demo_course False) empty_world))) = [] \<and>
   length (fst (take_and_close 1 (demo_env True False False)
                  (iter [alice, carol] demo_course False) empty_world)) = 1"
proof -
  let ?en = "demo_env True False False"
  have h: "(0::nat) < 1" "(1::nat) \<le> length [alice, carol]"
    by simp_all
  have c: "\<forall>u\<in>set (take 1 [alice, carol]). \<forall>e.
             compute ?en u (CourseData (Some u) demo_course) = Inl e \<longrightarrow> is_Exception e"
    by (simp add: demo_env_def demo_compute_def alice_def)
  from early_stop_skips_clear_cache [OF h, of empty_world ?en demo_course False] c
  show ?thesis
    by blast
qed

end
